theory Spec2Isabelle
  imports
    Main
    "HOL-Library.Word"
    "HOL-Library.Finite_Map"
    "HOL-Library.Char_ord"
    "HOL-Library.List_Lexorder"
    "HOL-Library.Product_Lexorder"
    "HOL-Library.Code_Target_Nat"
begin

section \<open>Data model of the inline store (digestive\_database.hpp)\<close>

text \<open>
  A \<open>std::vector<uint8_t>\<close> is a list of bytes, a \<open>std::string\<close> a list of
  characters, a \<open>std::map\<close> a finite map whose iteration order is the ascending key
  order (\<open>sorted_list_of_fmap\<close>). The counters \<open>uint64_t\<close> and \<open>size_t\<close> that are
  incremented are 64-bit words; the sizes of containers held in memory are natural
  numbers.
\<close>

type_synonym byte = "8 word"
type_synonym bytes = "byte list"
type_synonym u64 = "64 word"

datatype CompressionTier = TIER_0 | TIER_1 | TIER_2 | TIER_3 | TIER_4

datatype CompressionAlgo = NONE | LZ4_FAST | LZ4_HIGH | ZSTD_FAST | ZSTD_MEDIUM | ZSTD_MAX

datatype ReorgStrategy = MANUAL | EVERY_N_OPS | PERIODIC | ADAPTIVE

text \<open>
  What the C++ does outside defined behaviour or by throwing, as values:
  \<^item> \<open>EndIteratorDereference\<close>: \<open>it->second\<close> on \<open>map.end()\<close>;
  \<^item> \<open>IndeterminateValue\<close>: a local that a failed stream read left uninitialised is used;
  \<^item> \<open>EnumOutOfRange\<close>: a loaded image holds a tier or algorithm code that no
    enumerator names (the C++ keeps the raw integer; the model stops there);
  \<^item> \<open>LengthError\<close>: \<open>std::length_error\<close> thrown by a \<open>std::string\<close> constructor;
  \<^item> \<open>DivisionByZero\<close>: integer division by zero.
  A result \<open>Inl\<close> carries no state: what a call changed before it threw is not followed.
\<close>

datatype error =
  EndIteratorDereference | IndeterminateValue | EnumOutOfRange | LengthError | DivisionByZero

record TierConfig =
  tc_algorithm :: CompressionAlgo
  compress_fn :: "(bytes \<Rightarrow> bytes) option"
  decompress_fn :: "(bytes \<Rightarrow> nat \<Rightarrow> bytes) option"
  allow_lossy :: bool

record NodeMetadata =
  access_count :: u64
  last_access :: u64
  tier :: CompressionTier
  algorithm :: CompressionAlgo
  original_size :: nat
  compressed_size :: nat

text \<open>
  \<open>tier_configs\<close> is the array \<open>TierConfig[5]\<close>, indexed by the tier. The threshold
  \<open>reorg_change_threshold\<close> is a \<open>double\<close> in the source and a rational here.
\<close>

record DbConfig =
  allow_deletion :: bool
  max_size_bytes :: nat
  compression_enabled :: bool
  tier_configs :: "CompressionTier \<Rightarrow> TierConfig"
  reorg_strategy :: ReorgStrategy
  reorg_operation_threshold :: u64
  reorg_time_threshold :: u64
  reorg_change_threshold :: rat
  lazy_persistence :: bool
  write_buffer_size :: u64
  use_mmap :: bool

text \<open>
  The private members of \<open>DigestiveDatabase\<close> (without the trailing underscore), and
  the regular files of the directory \<open>db_path_\<close> by name: \<open>files\<close> holds their
  contents, \<open>read_only\<close> the names that cannot be opened for writing.
\<close>

record DbState =
  total_accesses :: u64
  operations_since_reorg :: u64
  last_reorg_time :: u64
  data_store :: "(string, bytes) fmap"
  metadata_store :: "(string, NodeMetadata) fmap"
  write_buffer :: "(string, bytes) fmap"
  write_buffer_current_size :: u64
  files :: "(string, bytes) fmap"
  read_only :: "string fset"

section \<open>Codecs\<close>

text \<open>
  The LZ4 and ZSTD libraries are not part of the repository; their entry points are
  parameters. A compressor returns \<open>None\<close> where the source takes its failure branch
  (\<open>compressed_size <= 0\<close>, \<open>ZSTD_isError\<close>), and the bytes of the resized output otherwise.
  A decompressor receives the source bytes and the capacity \<open>original_size\<close>; it returns
  \<open>None\<close> on failure and otherwise the bytes it wrote at the start of the destination.
  These functions give the result of a call that returns. On which arguments a call
  returns at all is a second parameter, \<open>CodecCalls\<close> below.
\<close>

record CodecLib =
  LZ4_compress_default :: "bytes \<Rightarrow> bytes option"
  LZ4_compress_HC :: "bytes \<Rightarrow> bytes option"
  ZSTD_compress :: "nat \<Rightarrow> bytes \<Rightarrow> bytes option"
  LZ4_decompress_safe :: "bytes \<Rightarrow> nat \<Rightarrow> bytes option"
  ZSTD_decompress :: "bytes \<Rightarrow> nat \<Rightarrow> bytes option"

definition compress_with_algo :: "CodecLib \<Rightarrow> bytes \<Rightarrow> CompressionAlgo \<Rightarrow> bytes" where
  "compress_with_algo lib data algo =
     (case algo of
        NONE \<Rightarrow> data
      | LZ4_FAST \<Rightarrow> (case LZ4_compress_default lib data of None \<Rightarrow> data | Some c \<Rightarrow> c)
      | LZ4_HIGH \<Rightarrow> (case LZ4_compress_HC lib data of None \<Rightarrow> data | Some c \<Rightarrow> c)
      | ZSTD_FAST \<Rightarrow> (case ZSTD_compress lib 3 data of None \<Rightarrow> data | Some c \<Rightarrow> c)
      | ZSTD_MEDIUM \<Rightarrow> (case ZSTD_compress lib 10 data of None \<Rightarrow> data | Some c \<Rightarrow> c)
      | ZSTD_MAX \<Rightarrow> (case ZSTD_compress lib 19 data of None \<Rightarrow> data | Some c \<Rightarrow> c))"

text \<open>
  The destination \<open>std::vector<uint8_t> decompressed(original_size)\<close> starts as zeroes;
  the library overwrites a prefix of it.
\<close>

definition fill_buffer :: "nat \<Rightarrow> bytes \<Rightarrow> bytes" where
  "fill_buffer n written = take n written @ replicate (n - length written) 0"

definition decompress_with_algo :: "CodecLib \<Rightarrow> bytes \<Rightarrow> CompressionAlgo \<Rightarrow> nat \<Rightarrow> bytes" where
  "decompress_with_algo lib data algo n =
     (case algo of
        NONE \<Rightarrow> data
      | LZ4_FAST \<Rightarrow> (case LZ4_decompress_safe lib data n of
                       None \<Rightarrow> data | Some w \<Rightarrow> fill_buffer n w)
      | LZ4_HIGH \<Rightarrow> (case LZ4_decompress_safe lib data n of
                       None \<Rightarrow> data | Some w \<Rightarrow> fill_buffer n w)
      | ZSTD_FAST \<Rightarrow> (case ZSTD_decompress lib data n of
                        None \<Rightarrow> data | Some w \<Rightarrow> fill_buffer n w)
      | ZSTD_MEDIUM \<Rightarrow> (case ZSTD_decompress lib data n of
                          None \<Rightarrow> data | Some w \<Rightarrow> fill_buffer n w)
      | ZSTD_MAX \<Rightarrow> (case ZSTD_decompress lib data n of
                       None \<Rightarrow> data | Some w \<Rightarrow> fill_buffer n w))"

definition compress :: "CodecLib \<Rightarrow> DbConfig \<Rightarrow> bytes \<Rightarrow> CompressionTier \<Rightarrow> bytes" where
  "compress lib cfg data t =
     (let tier_config = tier_configs cfg t in
      case compress_fn tier_config of
        Some f \<Rightarrow> f data
      | None \<Rightarrow> compress_with_algo lib data (tc_algorithm tier_config))"

text \<open>
  \<open>compress\<close> calls the custom hook of the tier when there is one; \<open>decompress\<close>
  goes by the algorithm only, and no function of the store calls \<open>decompress_fn\<close>.
\<close>

definition decompress :: "CodecLib \<Rightarrow> bytes \<Rightarrow> CompressionAlgo \<Rightarrow> nat \<Rightarrow> bytes" where
  "decompress lib data algo n = decompress_with_algo lib data algo n"

section \<open>The two images data.db and metadata.db\<close>

text \<open>
  Integers are written by raw copy of the host representation, little-endian on the
  hosts the store is built for. \<open>put_le n v\<close> is the \<open>n\<close> low bytes of \<open>v\<close>.
\<close>

definition put_le :: "nat \<Rightarrow> nat \<Rightarrow> bytes" where
  "put_le n v = map (\<lambda>i. of_nat (v div 256 ^ i)) [0..<n]"

definition get_le :: "bytes \<Rightarrow> nat" where
  "get_le bs = foldr (\<lambda>b acc. unat b + 256 * acc) bs 0"

definition byte_of_char :: "char \<Rightarrow> byte" where
  "byte_of_char c = of_nat (of_char c)"

definition char_of_byte :: "byte \<Rightarrow> char" where
  "char_of_byte b = char_of (unat b)"

definition tier_code :: "CompressionTier \<Rightarrow> nat" where
  "tier_code t = (case t of TIER_0 \<Rightarrow> 0 | TIER_1 \<Rightarrow> 1 | TIER_2 \<Rightarrow> 2 | TIER_3 \<Rightarrow> 3 | TIER_4 \<Rightarrow> 4)"

definition algo_code :: "CompressionAlgo \<Rightarrow> nat" where
  "algo_code a = (case a of NONE \<Rightarrow> 0 | LZ4_FAST \<Rightarrow> 1 | LZ4_HIGH \<Rightarrow> 2 | ZSTD_FAST \<Rightarrow> 3
                    | ZSTD_MEDIUM \<Rightarrow> 4 | ZSTD_MAX \<Rightarrow> 5)"

definition tier_of_code :: "nat \<Rightarrow> CompressionTier option" where
  "tier_of_code n = (if n = 0 then Some TIER_0 else if n = 1 then Some TIER_1
     else if n = 2 then Some TIER_2 else if n = 3 then Some TIER_3
     else if n = 4 then Some TIER_4 else None)"

definition algo_of_code :: "nat \<Rightarrow> CompressionAlgo option" where
  "algo_of_code n = (if n = 0 then Some NONE else if n = 1 then Some LZ4_FAST
     else if n = 2 then Some LZ4_HIGH else if n = 3 then Some ZSTD_FAST
     else if n = 4 then Some ZSTD_MEDIUM else if n = 5 then Some ZSTD_MAX else None)"

text \<open>
  One record of data.db: \<open>uint32_t key_len = key.size()\<close> truncates, and only
  \<open>key_len\<close> bytes of the key (and \<open>value_len\<close> of the value) are written.
\<close>

definition data_record :: "string \<times> bytes \<Rightarrow> bytes" where
  "data_record kv =
     (let key_len = length (fst kv) mod 2 ^ 32; value_len = length (snd kv) mod 2 ^ 32 in
      put_le 4 key_len @ map byte_of_char (take key_len (fst kv))
        @ put_le 4 value_len @ take value_len (snd kv))"

definition save_to_disk :: "DbState \<Rightarrow> DbState" where
  "save_to_disk s =
     (if ''data.db'' |\<in>| read_only s then s
      else s\<lparr>files := fmupd ''data.db''
                 (concat (map data_record (sorted_list_of_fmap (data_store s)))) (files s)\<rparr>)"

definition metadata_record :: "string \<times> NodeMetadata \<Rightarrow> bytes" where
  "metadata_record km =
     (let key_len = length (fst km) mod 2 ^ 32; metadata = snd km in
      put_le 4 key_len @ map byte_of_char (take key_len (fst km))
        @ put_le 8 (unat (access_count metadata))
        @ put_le 8 (unat (last_access metadata))
        @ put_le 4 (tier_code (tier metadata))
        @ put_le 4 (algo_code (algorithm metadata))
        @ put_le 8 (original_size metadata)
        @ put_le 8 (compressed_size metadata))"

definition save_metadata :: "DbState \<Rightarrow> DbState" where
  "save_metadata s =
     (if ''metadata.db'' |\<in>| read_only s then s
      else s\<lparr>files := fmupd ''metadata.db''
                 (put_le 8 (unat (total_accesses s))
                  @ put_le 8 (unat (operations_since_reorg s))
                  @ put_le 8 (unat (last_reorg_time s))
                  @ put_le 4 (size (fmdom (metadata_store s)) mod 2 ^ 32)
                  @ concat (map metadata_record (sorted_list_of_fmap (metadata_store s))))
                 (files s)\<rparr>)"

text \<open>
  \<open>istream::read\<close> of \<open>n\<close> bytes into an object that already holds \<open>old\<close>: the bytes
  that are left in the stream overwrite a prefix, the rest keeps its old content, and a
  short read fails the stream, so that every later read is a no-op (\<open>drop\<close> past the end
  leaves nothing to read).
\<close>

definition read_over :: "bytes \<Rightarrow> nat \<Rightarrow> bytes \<Rightarrow> bytes" where
  "read_over old n stream = take n stream @ drop (min n (length stream)) old"

text \<open>
  \<open>load_from_disk\<close>, the loop over the bytes of data.db. The loop breaks when the four
  bytes of \<open>key_len\<close> are not all there. \<open>value_len\<close> is an uninitialised local: when
  the stream fails before its four bytes are read, the source sizes a vector with an
  indeterminate value. A value cut short is stored zero-padded and ends the loop.
\<close>

function load_records ::
  "bytes \<Rightarrow> (string, bytes) fmap \<Rightarrow> error + (string, bytes) fmap" where
  "load_records stream store =
     (if length stream < 4 then Inr store
      else if length stream < 4 + get_le (take 4 stream) + 4 then Inl IndeterminateValue
      else
        (let key_len = get_le (take 4 stream);
             key = map char_of_byte (take key_len (drop 4 stream));
             value_len = get_le (take 4 (drop (4 + key_len) stream));
             rest = drop (4 + key_len + 4) stream;
             val = read_over (replicate value_len 0) value_len rest;
             store' = fmupd key val store
         in if length rest < value_len then Inr store'
            else load_records (drop value_len rest) store'))"
  by pat_completeness auto
termination
  by (relation "measure (\<lambda>(stream, store). length stream)") auto

definition load_from_disk :: "DbState \<Rightarrow> error + DbState" where
  "load_from_disk s =
     (case fmlookup (files s) ''data.db'' of
        None \<Rightarrow> Inr s
      | Some img \<Rightarrow>
          (case load_records img (data_store s) of
             Inl e \<Rightarrow> Inl e
           | Inr store \<Rightarrow> Inr (s\<lparr>data_store := store\<rparr>)))"

text \<open>
  \<open>load_metadata\<close>: the records after the header. \<open>n\<close> counts the iterations left of
  \<open>for (i = 0; i < count && file; i++)\<close>. \<open>key_len\<close> is an uninitialised local; the
  fields of \<open>NodeMetadata\<close> start from the default constructor (0, 0, TIER\_4, ZSTD\_MAX, 0,
  0) and are overwritten by what the stream still holds.
\<close>

function load_metadata_records ::
  "nat \<Rightarrow> bytes \<Rightarrow> (string, NodeMetadata) fmap \<Rightarrow> error + (string, NodeMetadata) fmap" where
  "load_metadata_records n stream store =
     (if n = 0 then Inr store
      else if length stream < 4 then Inl IndeterminateValue
      else
        (let key_len = get_le (take 4 stream);
             key = map char_of_byte (read_over (replicate key_len 0) key_len (drop 4 stream));
             r = drop (4 + key_len) stream;
             ac = get_le (read_over (put_le 8 0) 8 r);
             la = get_le (read_over (put_le 8 0) 8 (drop 8 r));
             tc = get_le (read_over (put_le 4 4) 4 (drop 16 r));
             alc = get_le (read_over (put_le 4 5) 4 (drop 20 r));
             os = get_le (read_over (put_le 8 0) 8 (drop 24 r));
             cs = get_le (read_over (put_le 8 0) 8 (drop 32 r))
         in case (tier_of_code tc, algo_of_code alc) of
              (Some t, Some a) \<Rightarrow>
                (let metadata = \<lparr>access_count = of_nat ac, last_access = of_nat la, tier = t,
                                 algorithm = a, original_size = os, compressed_size = cs\<rparr>;
                     store' = fmupd key metadata store
                 in if length r < 40 then Inr store'
                    else load_metadata_records (n - 1) (drop 40 r) store')
            | _ \<Rightarrow> Inl EnumOutOfRange))"
  by pat_completeness auto
termination
  by (relation "measure (\<lambda>(n, stream, store). n)") auto

text \<open>
  A missing metadata.db leaves the state as it is. The header is read without a check:
  when it is shorter than its 28 bytes, \<open>count\<close> is indeterminate.
\<close>

definition load_metadata :: "DbState \<Rightarrow> error + DbState" where
  "load_metadata s =
     (case fmlookup (files s) ''metadata.db'' of
        None \<Rightarrow> Inr s
      | Some img \<Rightarrow>
          (if length img < 28 then Inl IndeterminateValue
           else
             (case load_metadata_records (get_le (take 4 (drop 24 img))) (drop 28 img)
                     (metadata_store s) of
                Inl e \<Rightarrow> Inl e
              | Inr store \<Rightarrow>
                  Inr (s\<lparr>total_accesses := of_nat (get_le (take 8 img)),
                         operations_since_reorg := of_nat (get_le (take 8 (drop 8 img))),
                         last_reorg_time := of_nat (get_le (take 8 (drop 16 img))),
                         metadata_store := store\<rparr>))))"

text \<open>
  The constructor on a directory that holds \<open>dir\<close>; \<open>now\<close> is \<open>current_timestamp()\<close>.
\<close>

definition initial_state :: "(string, bytes) fmap \<Rightarrow> string fset \<Rightarrow> u64 \<Rightarrow> DbState" where
  "initial_state dir ro now =
     \<lparr>total_accesses = 0, operations_since_reorg = 0, last_reorg_time = now,
      data_store = fmempty, metadata_store = fmempty, write_buffer = fmempty,
      write_buffer_current_size = 0, files = dir, read_only = ro\<rparr>"

definition open_database :: "(string, bytes) fmap \<Rightarrow> string fset \<Rightarrow> u64 \<Rightarrow> error + DbState" where
  "open_database dir ro now =
     (case load_from_disk (initial_state dir ro now) of
        Inl e \<Rightarrow> Inl e
      | Inr s \<Rightarrow> load_metadata s)"

section \<open>Operations of the inline store\<close>

text \<open>
  A public call may read the clock more than once; \<open>now\<close> stands for every reading
  of \<open>current_timestamp()\<close> within one call. What a call prints to \<open>std::cout\<close> or
  \<open>std::cerr\<close> is not part of the state.
\<close>

text \<open>
  \<open>flush\<close> copies every buffered pair into the data map, in key order, and clears the
  buffer.
\<close>

definition flush :: "DbState \<Rightarrow> DbState" where
  "flush s =
     (if write_buffer s = fmempty then s
      else s\<lparr>data_store := fold (\<lambda>(key, data) store. fmupd key data store)
                                (sorted_list_of_fmap (write_buffer s)) (data_store s),
             write_buffer := fmempty,
             write_buffer_current_size := 0\<rparr>)"

text \<open>The sizes of the regular files directly under \<open>db_path_\<close>, summed.\<close>

definition get_size_on_disk :: "DbState \<Rightarrow> nat" where
  "get_size_on_disk s = sum_list (map (\<lambda>(name, content). length content)
                                      (sorted_list_of_fmap (files s)))"

text \<open>
  \<open>calculate_tier\<close> compares the \<open>double\<close> quotient of the two counters with the
  literals 0.3, 0.15, 0.05 and 0.01; here the quotient and the bounds are exact rationals
  (the two agree except within the rounding error of a bound).
\<close>

definition calculate_tier :: "DbState \<Rightarrow> u64 \<Rightarrow> CompressionTier" where
  "calculate_tier s ac =
     (if total_accesses s = 0 then TIER_4
      else
        (let frequency_ratio = (of_nat (unat ac) :: rat) / of_nat (unat (total_accesses s)) in
         if frequency_ratio > 3 / 10 then TIER_0
         else if frequency_ratio > 15 / 100 then TIER_1
         else if frequency_ratio > 5 / 100 then TIER_2
         else if frequency_ratio > 1 / 100 then TIER_3
         else TIER_4))"

text \<open>
  The body of the loop of \<open>reorganize\<close> for one key of the metadata map: the blob is
  decoded with the recorded algorithm and encoded with \<open>compress_with_algo\<close> for the new
  one.
\<close>

definition reorganize_entry :: "CodecLib \<Rightarrow> DbConfig \<Rightarrow> string \<Rightarrow> DbState \<Rightarrow> DbState" where
  "reorganize_entry lib cfg key s =
     (case fmlookup (metadata_store s) key of
        None \<Rightarrow> s
      | Some metadata \<Rightarrow>
          (let new_tier = calculate_tier s (access_count metadata);
               new_algo = tc_algorithm (tier_configs cfg new_tier) in
           if new_tier \<noteq> tier metadata \<or> new_algo \<noteq> algorithm metadata then
             (case fmlookup (data_store s) key of
                None \<Rightarrow> s
              | Some blob \<Rightarrow>
                  (let decompressed =
                         (if compression_enabled cfg
                          then decompress lib blob (algorithm metadata) (original_size metadata)
                          else blob);
                       recompressed =
                         (if compression_enabled cfg
                          then compress_with_algo lib decompressed new_algo
                          else decompressed)
                   in s\<lparr>data_store := fmupd key recompressed (data_store s),
                         metadata_store :=
                           fmupd key (metadata\<lparr>tier := new_tier, algorithm := new_algo,
                                       compressed_size := length recompressed\<rparr>)
                             (metadata_store s)\<rparr>))
           else s))"

text \<open>
  Both images are written before the operation counter is reset, so metadata.db records
  the old counter.
\<close>

definition reorganize :: "CodecLib \<Rightarrow> DbConfig \<Rightarrow> u64 \<Rightarrow> DbState \<Rightarrow> DbState" where
  "reorganize lib cfg now s =
     (let s1 = fold (reorganize_entry lib cfg)
                 (map fst (sorted_list_of_fmap (metadata_store s))) s;
          s2 = save_metadata (save_to_disk s1)
      in s2\<lparr>operations_since_reorg := 0, last_reorg_time := now\<rparr>)"

definition calculate_access_pattern_change :: "DbState \<Rightarrow> rat" where
  "calculate_access_pattern_change s =
     (if metadata_store s = fmempty then 0
      else of_nat (unat (operations_since_reorg s)) / of_nat (size (fmdom (metadata_store s))))"

definition should_reorganize :: "DbConfig \<Rightarrow> u64 \<Rightarrow> DbState \<Rightarrow> bool" where
  "should_reorganize cfg now s =
     (case reorg_strategy cfg of
        MANUAL \<Rightarrow> False
      | EVERY_N_OPS \<Rightarrow> operations_since_reorg s \<ge> reorg_operation_threshold cfg
      | PERIODIC \<Rightarrow> now - last_reorg_time s \<ge> reorg_time_threshold cfg
      | ADAPTIVE \<Rightarrow> calculate_access_pattern_change s \<ge> reorg_change_threshold cfg)"

definition check_reorganization_trigger ::
  "CodecLib \<Rightarrow> DbConfig \<Rightarrow> u64 \<Rightarrow> DbState \<Rightarrow> DbState" where
  "check_reorganization_trigger lib cfg now s =
     (if \<not> should_reorganize cfg now s then s else reorganize lib cfg now s)"

definition after_operation :: "CodecLib \<Rightarrow> DbConfig \<Rightarrow> u64 \<Rightarrow> DbState \<Rightarrow> DbState" where
  "after_operation lib cfg now s =
     check_reorganization_trigger lib cfg now
       (s\<lparr>operations_since_reorg := operations_since_reorg s + 1\<rparr>)"

text \<open>
  \<open>delete_coldest_data\<close>. The items are collected in key order and sorted by
  \<open>std::sort\<close> with a comparator that looks at the access count only. \<open>std::sort\<close> leaves
  the order of items with equal counts open; \<open>sort_key\<close> keeps them in the order they
  were collected, as the insertion sort does that the standard libraries run on short
  ranges.
\<close>

definition erase_key :: "string \<Rightarrow> DbState \<Rightarrow> DbState" where
  "erase_key key s =
     s\<lparr>data_store := fmdrop key (data_store s),
       metadata_store := fmdrop key (metadata_store s),
       write_buffer := fmdrop key (write_buffer s)\<rparr>"

definition coldest_keys :: "DbState \<Rightarrow> string list" where
  "coldest_keys s =
     (let items = map (\<lambda>(key, metadata). (key, access_count metadata))
                    (sorted_list_of_fmap (metadata_store s));
          delete_count = max (length items div 10) 1
      in map fst (take delete_count (sort_key snd items)))"

definition delete_coldest_data :: "DbState \<Rightarrow> DbState" where
  "delete_coldest_data s = save_metadata (save_to_disk (fold erase_key (coldest_keys s) s))"

definition check_size_limit :: "DbConfig \<Rightarrow> DbState \<Rightarrow> DbState" where
  "check_size_limit cfg s =
     (if get_size_on_disk s > max_size_bytes cfg
      then (if allow_deletion cfg then delete_coldest_data s else s)
      else s)"

text \<open>
  \<open>insert_binary\<close>; \<open>now\<close> is the value of \<open>current_timestamp()\<close> during the call.
\<close>

definition insert_binary ::
  "CodecLib \<Rightarrow> DbConfig \<Rightarrow> u64 \<Rightarrow> string \<Rightarrow> bytes \<Rightarrow> DbState \<Rightarrow> DbState" where
  "insert_binary lib cfg now key data s =
     (let algo = tc_algorithm (tier_configs cfg TIER_4);
          compressed = (if compression_enabled cfg then compress lib cfg data TIER_4 else data);
          metadata = \<lparr>access_count = 0, last_access = now, tier = TIER_4, algorithm = algo,
                      original_size = length data, compressed_size = length compressed\<rparr>;
          s1 = (if lazy_persistence cfg then
                  (let b = s\<lparr>write_buffer := fmupd key compressed (write_buffer s),
                             write_buffer_current_size :=
                               write_buffer_current_size s + of_nat (length compressed)\<rparr>
                   in if write_buffer_current_size b \<ge> write_buffer_size cfg then flush b else b)
                else s\<lparr>data_store := fmupd key compressed (data_store s)\<rparr>);
          s2 = s1\<lparr>metadata_store := fmupd key metadata (metadata_store s1)\<rparr>
      in after_operation lib cfg now (check_size_limit cfg s2))"

text \<open>
  \<open>get_binary\<close>. A miss returns before \<open>after_operation\<close>. On a hit the metadata is
  updated under the guard \<open>meta_it != end()\<close>, and then \<open>meta_it->second\<close> is taken
  without the guard. The plaintext is computed before \<open>after_operation\<close> runs.
\<close>

definition get_binary ::
  "CodecLib \<Rightarrow> DbConfig \<Rightarrow> u64 \<Rightarrow> string \<Rightarrow> DbState \<Rightarrow> error + (bytes option \<times> DbState)" where
  "get_binary lib cfg now key s =
     (let s1 = (if fmlookup (write_buffer s) key \<noteq> None then flush s else s) in
      case fmlookup (data_store s1) key of
        None \<Rightarrow> Inr (None, s1)
      | Some compressed \<Rightarrow>
          (case fmlookup (metadata_store s1) key of
             None \<Rightarrow> Inl EndIteratorDereference
           | Some m \<Rightarrow>
               (let metadata = m\<lparr>access_count := access_count m + 1, last_access := now\<rparr>;
                    s2 = s1\<lparr>metadata_store := fmupd key metadata (metadata_store s1),
                            total_accesses := total_accesses s1 + 1\<rparr>;
                    decompressed =
                      (if compression_enabled cfg
                       then decompress lib compressed (algorithm metadata) (original_size metadata)
                       else compressed)
                in Inr (Some decompressed, after_operation lib cfg now s2))))"

definition remove :: "CodecLib \<Rightarrow> DbConfig \<Rightarrow> u64 \<Rightarrow> string \<Rightarrow> DbState \<Rightarrow> bool \<times> DbState" where
  "remove lib cfg now key s =
     (let found = (fmlookup (data_store s) key \<noteq> None) in
      (found, after_operation lib cfg now (erase_key key s)))"

text \<open>
  The blob that the store holds for a key: the buffered one if the key is in the write
  buffer (a read flushes it first), else the one in the data map.
\<close>

definition stored_blob :: "DbState \<Rightarrow> string \<Rightarrow> bytes option" where
  "stored_blob s k =
     (case fmlookup (write_buffer s) k of
        Some blob \<Rightarrow> Some blob
      | None \<Rightarrow> fmlookup (data_store s) k)"

section \<open>Where the calls into the codec libraries return\<close>

text \<open>
  A call into LZ4 or ZSTD need not come back: \<open>LZ4_compress_HC\<close> reads through its
  source pointer, and \<open>data()\<close> of an empty vector may be null. A field of
  \<open>CodecCalls\<close> holds for the arguments on which the branch of \<open>compress_with_algo\<close>
  or \<open>decompress_with_algo\<close> around that entry point returns: the buffer of the branch
  is allocated and the library call comes back. What it comes back with is in
  \<open>CodecLib\<close>.
\<close>

record CodecCalls =
  LZ4_compress_default_returns :: "bytes \<Rightarrow> bool"
  LZ4_compress_HC_returns :: "bytes \<Rightarrow> bool"
  ZSTD_compress_returns :: "nat \<Rightarrow> bytes \<Rightarrow> bool"
  LZ4_decompress_safe_returns :: "bytes \<Rightarrow> nat \<Rightarrow> bool"
  ZSTD_decompress_returns :: "bytes \<Rightarrow> nat \<Rightarrow> bool"

definition compress_with_algo_returns :: "CodecCalls \<Rightarrow> bytes \<Rightarrow> CompressionAlgo \<Rightarrow> bool" where
  "compress_with_algo_returns calls data algo =
     (case algo of
        NONE \<Rightarrow> True
      | LZ4_FAST \<Rightarrow> LZ4_compress_default_returns calls data
      | LZ4_HIGH \<Rightarrow> LZ4_compress_HC_returns calls data
      | ZSTD_FAST \<Rightarrow> ZSTD_compress_returns calls 3 data
      | ZSTD_MEDIUM \<Rightarrow> ZSTD_compress_returns calls 10 data
      | ZSTD_MAX \<Rightarrow> ZSTD_compress_returns calls 19 data)"

definition decompress_with_algo_returns ::
  "CodecCalls \<Rightarrow> bytes \<Rightarrow> CompressionAlgo \<Rightarrow> nat \<Rightarrow> bool" where
  "decompress_with_algo_returns calls data algo n =
     (case algo of
        NONE \<Rightarrow> True
      | LZ4_FAST \<Rightarrow> LZ4_decompress_safe_returns calls data n
      | LZ4_HIGH \<Rightarrow> LZ4_decompress_safe_returns calls data n
      | ZSTD_FAST \<Rightarrow> ZSTD_decompress_returns calls data n
      | ZSTD_MEDIUM \<Rightarrow> ZSTD_decompress_returns calls data n
      | ZSTD_MAX \<Rightarrow> ZSTD_decompress_returns calls data n)"

text \<open>A custom hook is a function of the caller and is taken to return.\<close>

definition compress_returns :: "CodecCalls \<Rightarrow> DbConfig \<Rightarrow> bytes \<Rightarrow> CompressionTier \<Rightarrow> bool" where
  "compress_returns calls cfg data t =
     (let tier_config = tier_configs cfg t in
      case compress_fn tier_config of
        Some f \<Rightarrow> True
      | None \<Rightarrow> compress_with_algo_returns calls data (tc_algorithm tier_config))"

text \<open>
  The calls of one pass of the loop of \<open>reorganize\<close>, and of the passes for a list of
  keys, each in the state the passes before it left.
\<close>

definition reorganize_entry_returns ::
  "CodecCalls \<Rightarrow> CodecLib \<Rightarrow> DbConfig \<Rightarrow> string \<Rightarrow> DbState \<Rightarrow> bool" where
  "reorganize_entry_returns calls lib cfg k s =
     (case fmlookup (metadata_store s) k of
        None \<Rightarrow> True
      | Some metadata \<Rightarrow>
          (let new_tier = calculate_tier s (access_count metadata);
               new_algo = tc_algorithm (tier_configs cfg new_tier) in
           if new_tier \<noteq> tier metadata \<or> new_algo \<noteq> algorithm metadata then
             (case fmlookup (data_store s) k of
                None \<Rightarrow> True
              | Some blob \<Rightarrow>
                  (if compression_enabled cfg
                   then decompress_with_algo_returns calls blob (algorithm metadata)
                          (original_size metadata)
                        \<and> compress_with_algo_returns calls
                            (decompress lib blob (algorithm metadata) (original_size metadata))
                            new_algo
                   else True))
           else True))"

fun reorganize_entries_return ::
  "CodecCalls \<Rightarrow> CodecLib \<Rightarrow> DbConfig \<Rightarrow> string list \<Rightarrow> DbState \<Rightarrow> bool" where
  "reorganize_entries_return calls lib cfg [] s = True"
| "reorganize_entries_return calls lib cfg (k # ks) s =
     (reorganize_entry_returns calls lib cfg k s
      \<and> reorganize_entries_return calls lib cfg ks (reorganize_entry lib cfg k s))"

definition reorganize_returns :: "CodecCalls \<Rightarrow> CodecLib \<Rightarrow> DbConfig \<Rightarrow> DbState \<Rightarrow> bool" where
  "reorganize_returns calls lib cfg s =
     reorganize_entries_return calls lib cfg (map fst (sorted_list_of_fmap (metadata_store s))) s"

definition after_operation_returns ::
  "CodecCalls \<Rightarrow> CodecLib \<Rightarrow> DbConfig \<Rightarrow> u64 \<Rightarrow> DbState \<Rightarrow> bool" where
  "after_operation_returns calls lib cfg now s =
     (let s1 = s\<lparr>operations_since_reorg := operations_since_reorg s + 1\<rparr> in
      if should_reorganize cfg now s1 then reorganize_returns calls lib cfg s1 else True)"

text \<open>
  \<open>insert_binary\<close> up to its call of \<open>after_operation\<close> (lemma
  \<open>insert_binary_hook\<close>), and whether the whole call returns.
\<close>

definition insert_binary_stored ::
  "CodecLib \<Rightarrow> DbConfig \<Rightarrow> u64 \<Rightarrow> string \<Rightarrow> bytes \<Rightarrow> DbState \<Rightarrow> DbState" where
  "insert_binary_stored lib cfg now k data s =
     (let algo = tc_algorithm (tier_configs cfg TIER_4);
          compressed = (if compression_enabled cfg then compress lib cfg data TIER_4 else data);
          metadata = \<lparr>access_count = 0, last_access = now, tier = TIER_4, algorithm = algo,
                      original_size = length data, compressed_size = length compressed\<rparr>;
          s1 = (if lazy_persistence cfg then
                  (let b = s\<lparr>write_buffer := fmupd k compressed (write_buffer s),
                             write_buffer_current_size :=
                               write_buffer_current_size s + of_nat (length compressed)\<rparr>
                   in if write_buffer_current_size b \<ge> write_buffer_size cfg then flush b else b)
                else s\<lparr>data_store := fmupd k compressed (data_store s)\<rparr>);
          s2 = s1\<lparr>metadata_store := fmupd k metadata (metadata_store s1)\<rparr>
      in check_size_limit cfg s2)"

definition insert_binary_returns ::
  "CodecCalls \<Rightarrow> CodecLib \<Rightarrow> DbConfig \<Rightarrow> u64 \<Rightarrow> string \<Rightarrow> bytes \<Rightarrow> DbState \<Rightarrow> bool" where
  "insert_binary_returns calls lib cfg now k data s =
     ((if compression_enabled cfg then compress_returns calls cfg data TIER_4 else True)
      \<and> after_operation_returns calls lib cfg now (insert_binary_stored lib cfg now k data s))"

text \<open>
  Whether \<open>get_binary\<close> returns: a miss does, a hit without metadata does not (it is
  \<open>Inl\<close> in \<open>get_binary\<close>), and any other hit does when its library calls do.
\<close>

definition get_binary_returns ::
  "CodecCalls \<Rightarrow> CodecLib \<Rightarrow> DbConfig \<Rightarrow> u64 \<Rightarrow> string \<Rightarrow> DbState \<Rightarrow> bool" where
  "get_binary_returns calls lib cfg now k s =
     (let s1 = (if fmlookup (write_buffer s) k \<noteq> None then flush s else s) in
      case fmlookup (data_store s1) k of
        None \<Rightarrow> True
      | Some compressed \<Rightarrow>
          (case fmlookup (metadata_store s1) k of
             None \<Rightarrow> False
           | Some m \<Rightarrow>
               (let metadata = m\<lparr>access_count := access_count m + 1, last_access := now\<rparr>;
                    s2 = s1\<lparr>metadata_store := fmupd k metadata (metadata_store s1),
                            total_accesses := total_accesses s1 + 1\<rparr>
                in (if compression_enabled cfg
                    then decompress_with_algo_returns calls compressed (algorithm metadata)
                           (original_size metadata)
                    else True)
                   \<and> after_operation_returns calls lib cfg now s2)))"

text \<open>
  No blob in the data map or in the write buffer is empty and no record has
  \<open>original_size\<close> 0, so that no vector that a reorganization hands to a codec is empty.
\<close>

definition no_empty_value :: "DbState \<Rightarrow> bool" where
  "no_empty_value s =
     (list_all (\<lambda>(k, blob). blob \<noteq> []) (sorted_list_of_fmap (data_store s))
      \<and> list_all (\<lambda>(k, blob). blob \<noteq> []) (sorted_list_of_fmap (write_buffer s))
      \<and> list_all (\<lambda>(k, metadata). original_size metadata \<noteq> 0)
           (sorted_list_of_fmap (metadata_store s)))"

section \<open>The chunking engine (chunking\_engine.cpp)\<close>

text \<open>
  \<open>heat\<close> is a \<open>double\<close> in the source and a rational here; no result below depends on
  its value. The fields of \<open>ChunkMetadata\<close> that share a name with a field of
  \<open>NodeMetadata\<close> carry the prefix \<open>chunk_\<close>.
\<close>

type_synonym u32 = "32 word"

record ChunkMetadata =
  chunk_id :: u32
  heat :: rat
  chunk_compressed_size :: nat
  chunk_original_size :: nat
  file_offset :: u64
  chunk_tier :: byte
  chunk_last_access :: u64

record ChunkedFileMetadata =
  key :: string
  total_size :: nat
  chunk_size :: nat
  num_chunks :: u32
  chunks :: "(u32, ChunkMetadata) fmap"

text \<open>
  The members of \<open>ChunkingEngine\<close>, and the files below \<open>chunks_dir_\<close> by path:
  \<open>disk\<close> holds their contents, \<open>disk_read_only\<close> the paths that cannot be opened
  for writing. A file opens for reading exactly when it exists.
\<close>

record ChunkingEngine =
  storage_path :: string
  chunks_dir :: string
  default_chunk_size :: u64
  file_metadata :: "(string, ChunkedFileMetadata) fmap"
  disk :: "(string, bytes) fmap"
  disk_read_only :: "string fset"

text \<open>\<open>std::to_string\<close> of an unsigned value: its decimal digits.\<close>

fun to_string :: "nat \<Rightarrow> string" where
  "to_string n =
     (if n < 10 then [char_of (48 + n)]
      else to_string (n div 10) @ [char_of (48 + n mod 10)])"

declare to_string.simps [simp del]

text \<open>
  \<open>max_size()\<close> of \<open>std::string\<close> (libstdc++: \<open>(PTRDIFF_MAX - 1) / 2\<close>). Every
  implementation's bound lies far below \<open>2 ^ 64 - 7\<close>, the least count that
  \<open>get_chunk_path\<close> requests once the subtraction has wrapped.
\<close>

definition string_max_size :: nat where
  "string_max_size = (2 ^ 63 - 2) div 2"

text \<open>
  \<open>get_chunk_path\<close>: \<open>3 - std::to_string(chunk_id).length()\<close> is computed in
  \<open>size_t\<close>, and \<open>std::string(count, '0')\<close> throws \<open>std::length_error\<close> when
  \<open>count\<close> exceeds \<open>max_size()\<close>.
\<close>

definition get_chunk_path :: "ChunkingEngine \<Rightarrow> string \<Rightarrow> u32 \<Rightarrow> error + string" where
  "get_chunk_path e k cid =
     (let digits = to_string (unat cid);
          count = (2 ^ 64 + 3 - length digits) mod 2 ^ 64
      in if count > string_max_size then Inl LengthError
         else Inr (chunks_dir e @ ''/'' @ k @ ''/chunk_'' @ replicate count (CHR ''0'')
                     @ digits @ ''.bin''))"

text \<open>
  The loop of \<open>insert_chunked\<close> over the chunk ids, on the files and on the chunk map
  of the new entry. The ids are those below \<open>num_chunks\<close>, for which \<open>i * chunk_size\<close>
  stays below \<open>data.size()\<close>, so neither the product nor the difference wraps. An
  exception of \<open>get_chunk_path\<close> leaves the function.
\<close>

fun write_chunks ::
  "ChunkingEngine \<Rightarrow> string \<Rightarrow> bytes \<Rightarrow> (bytes \<Rightarrow> byte \<Rightarrow> bytes) \<Rightarrow> nat list
     \<Rightarrow> (string, bytes) fmap \<times> (u32, ChunkMetadata) fmap
     \<Rightarrow> error + ((string, bytes) fmap \<times> (u32, ChunkMetadata) fmap)" where
  "write_chunks e k data cfn [] acc = Inr acc"
| "write_chunks e k data cfn (i # ids) (dsk, cs) =
     (let offset = i * unat (default_chunk_size e);
          chunk_data_size = min (unat (default_chunk_size e)) (length data - offset);
          chunk_data = take chunk_data_size (drop offset data);
          compressed = cfn chunk_data 4;
          chunk_meta = \<lparr>chunk_id = of_nat i, heat = 1 / 10,
                        chunk_compressed_size = length compressed,
                        chunk_original_size = chunk_data_size, file_offset = 0,
                        chunk_tier = 4, chunk_last_access = 0\<rparr>
      in case get_chunk_path e k (of_nat i) of
           Inl err \<Rightarrow> Inl err
         | Inr chunk_path \<Rightarrow>
             write_chunks e k data cfn ids
               (if chunk_path |\<in>| disk_read_only e then dsk else fmupd chunk_path compressed dsk,
                fmupd (of_nat i) chunk_meta cs))"

text \<open>
  \<open>insert_chunked\<close>. The chunk count is computed in \<open>size_t\<close> and stored in a
  \<open>uint32_t\<close>. The closing \<open>save_metadata()\<close> rewrites \<open>chunk_metadata.db\<close>, a file
  whose name differs from every chunk path and that no read of a chunk consults; it is
  not among the files modelled.
\<close>

definition insert_chunked ::
  "ChunkingEngine \<Rightarrow> string \<Rightarrow> bytes \<Rightarrow> (bytes \<Rightarrow> byte \<Rightarrow> bytes) \<Rightarrow> error + ChunkingEngine" where
  "insert_chunked e k data cfn =
     (if default_chunk_size e = 0 then Inl DivisionByZero
      else
        (let c = unat (default_chunk_size e);
             n = (of_nat (((length data + c - 1) mod 2 ^ 64) div c) :: u32)
         in case write_chunks e k data cfn [0..<unat n] (disk e, fmempty) of
              Inl err \<Rightarrow> Inl err
            | Inr (dsk, cs) \<Rightarrow>
                Inr (e\<lparr>file_metadata :=
                          fmupd k \<lparr>key = k, total_size = length data, chunk_size = c,
                                   num_chunks = n, chunks = cs\<rparr> (file_metadata e),
                        disk := dsk\<rparr>)))"

text \<open>
  The loop of \<open>get_chunk_range\<close>. A chunk without metadata or without a file is
  skipped (\<open>continue\<close>). The buffer of \<open>compressed_size\<close> zero bytes is overwritten by
  what the file holds.
\<close>

fun read_chunks ::
  "ChunkingEngine \<Rightarrow> string \<Rightarrow> (bytes \<Rightarrow> byte \<Rightarrow> nat \<Rightarrow> bytes) \<Rightarrow> u64 \<Rightarrow> nat list
     \<Rightarrow> bytes \<times> (u32, ChunkMetadata) fmap
     \<Rightarrow> error + (bytes \<times> (u32, ChunkMetadata) fmap)" where
  "read_chunks e k dfn now [] acc = Inr acc"
| "read_chunks e k dfn now (i # ids) (result, cs) =
     (case fmlookup cs (of_nat i) of
        None \<Rightarrow> read_chunks e k dfn now ids (result, cs)
      | Some chunk_meta \<Rightarrow>
          (case get_chunk_path e k (of_nat i) of
             Inl err \<Rightarrow> Inl err
           | Inr chunk_path \<Rightarrow>
               (case fmlookup (disk e) chunk_path of
                  None \<Rightarrow> read_chunks e k dfn now ids (result, cs)
                | Some content \<Rightarrow>
                    (let compressed = read_over (replicate (chunk_compressed_size chunk_meta) 0)
                                        (chunk_compressed_size chunk_meta) content;
                         decompressed = dfn compressed (chunk_tier chunk_meta)
                                          (chunk_original_size chunk_meta);
                         chunk_meta' = chunk_meta\<lparr>heat := min 1 (heat chunk_meta + 1 / 10),
                                                  chunk_last_access := now\<rparr>
                     in read_chunks e k dfn now ids
                          (result @ decompressed, fmupd (of_nat i) chunk_meta' cs)))))"

text \<open>
  \<open>get_chunk_range\<close>. The loop variable is a \<open>uint32_t\<close> that runs from
  \<open>start_chunk\<close> to \<open>end_chunk\<close> inclusive; \<open>end_chunk\<close> is below \<open>num_chunks\<close>
  there, so the increment does not wrap.
\<close>

definition get_chunk_range ::
  "ChunkingEngine \<Rightarrow> u64 \<Rightarrow> string \<Rightarrow> u32 \<Rightarrow> u32 \<Rightarrow> (bytes \<Rightarrow> byte \<Rightarrow> nat \<Rightarrow> bytes)
     \<Rightarrow> error + (bytes option \<times> ChunkingEngine)" where
  "get_chunk_range e now k start_chunk end_chunk dfn =
     (case fmlookup (file_metadata e) k of
        None \<Rightarrow> Inr (None, e)
      | Some file_meta \<Rightarrow>
          (if start_chunk \<ge> num_chunks file_meta \<or> end_chunk \<ge> num_chunks file_meta
           then Inr (None, e)
           else
             (case read_chunks e k dfn now [unat start_chunk..<Suc (unat end_chunk)]
                     ([], chunks file_meta) of
                Inl err \<Rightarrow> Inl err
              | Inr (result, cs) \<Rightarrow>
                  Inr (Some result,
                       e\<lparr>file_metadata :=
                           fmupd k (file_meta\<lparr>chunks := cs\<rparr>) (file_metadata e)\<rparr>))))"

text \<open>
  Two notions for stating results about chunks: the bytes of chunk \<open>i\<close> of a value
  cut into pieces of \<open>c\<close> bytes, and the number that a string of decimal digits denotes.
\<close>

definition chunk_bytes :: "nat \<Rightarrow> bytes \<Rightarrow> nat \<Rightarrow> bytes" where
  "chunk_bytes c data i = take (min c (length data - i * c)) (drop (i * c) data)"

definition digits_value :: "string \<Rightarrow> nat" where
  "digits_value ds = foldl (\<lambda>acc d. 10 * acc + (of_char d - 48)) 0 ds"

section \<open>The eviction order of the specification\<close>

text \<open>
  The order the specification gives for eviction, for comparison with
  \<open>coldest_keys\<close>: ascending access count, ties by ascending \<open>last_access\<close>, then by
  key.
\<close>

definition spec_coldest_keys :: "DbState \<Rightarrow> string list" where
  "spec_coldest_keys s =
     (let items = sorted_list_of_fmap (metadata_store s);
          delete_count = max (length items div 10) 1
      in map fst (take delete_count
           (sort_key (\<lambda>(k, metadata). (access_count metadata, last_access metadata, k)) items)))"

section \<open>Concrete configurations and states\<close>

text \<open>The default constructor \<open>DbConfig::DbConfig()\<close>.\<close>

definition default_tier_configs :: "CompressionTier \<Rightarrow> TierConfig" where
  "default_tier_configs t =
     \<lparr>tc_algorithm = (case t of TIER_0 \<Rightarrow> NONE | TIER_1 \<Rightarrow> LZ4_FAST | TIER_2 \<Rightarrow> LZ4_HIGH
                        | TIER_3 \<Rightarrow> ZSTD_MEDIUM | TIER_4 \<Rightarrow> ZSTD_MAX),
      compress_fn = None, decompress_fn = None, allow_lossy = False\<rparr>"

definition default_config :: DbConfig where
  "default_config =
     \<lparr>allow_deletion = False, max_size_bytes = 2 ^ 64 - 1, compression_enabled = True,
      tier_configs = default_tier_configs, reorg_strategy = ADAPTIVE,
      reorg_operation_threshold = 100, reorg_time_threshold = 300,
      reorg_change_threshold = 1 / 5, lazy_persistence = False,
      write_buffer_size = 10 * 1024 * 1024, use_mmap = False\<rparr>"

text \<open>
  A stand-in for the codec libraries in concrete evaluations: a compressor puts one tag
  byte in front of the input, a decompressor strips it and fails on an empty source or
  on a destination that is too small.
\<close>

definition strip_tag :: "bytes \<Rightarrow> nat \<Rightarrow> bytes option" where
  "strip_tag src cap =
     (case src of [] \<Rightarrow> None | t # body \<Rightarrow> if length body \<le> cap then Some body else None)"

definition tag_lib :: CodecLib where
  "tag_lib =
     \<lparr>LZ4_compress_default = (\<lambda>d. Some (1 # d)),
      LZ4_compress_HC = (\<lambda>d. Some (2 # d)),
      ZSTD_compress = (\<lambda>level d. Some (of_nat level # d)),
      LZ4_decompress_safe = strip_tag,
      ZSTD_decompress = strip_tag\<rparr>"

text \<open>The manual strategy, and a small size limit with deletion allowed.\<close>

definition manual_config :: DbConfig where
  "manual_config = default_config\<lparr>reorg_strategy := MANUAL\<rparr>"

definition lazy_config :: DbConfig where
  "lazy_config = manual_config\<lparr>lazy_persistence := True\<rparr>"

definition evicting_config :: DbConfig where
  "evicting_config = manual_config\<lparr>allow_deletion := True, max_size_bytes := 4\<rparr>"

definition every_op_config :: DbConfig where
  "every_op_config = default_config\<lparr>reorg_strategy := EVERY_N_OPS,
                                      reorg_operation_threshold := 1\<rparr>"

text \<open>
  A pair of custom hooks on tier 4, as the README configures them: the compressor
  reverses the bytes and the decompressor reverses them back.
\<close>

definition hook_config :: DbConfig where
  "hook_config =
     manual_config\<lparr>tier_configs :=
       default_tier_configs
         (TIER_4 := \<lparr>tc_algorithm = NONE, compress_fn = Some rev,
                     decompress_fn = Some (\<lambda>d n. rev d), allow_lossy = False\<rparr>)\<rparr>"

text \<open>A new database in an empty directory, opened at second 100.\<close>

definition empty_db :: DbState where
  "empty_db = initial_state fmempty {||} 100"

text \<open>
  A directory that holds a five-byte file of the index layer beside the store's own
  images, which puts any limit below five bytes out of reach.
\<close>

definition crowded_db :: DbState where
  "crowded_db = initial_state (fmupd ''indexes.db'' [1, 2, 3, 4, 5] fmempty) {||} 100"

text \<open>
  Two keys that were never read; \<open>''a''\<close> was written at second 10, \<open>''b''\<close> at second 5.
\<close>

definition two_cold_keys :: DbState where
  "two_cold_keys =
     empty_db\<lparr>data_store := fmupd ''a'' [1] (fmupd ''b'' [2] fmempty),
              metadata_store :=
                fmupd ''a'' \<lparr>access_count = 0, last_access = 10, tier = TIER_4, algorithm = NONE,
                             original_size = 1, compressed_size = 1\<rparr>
                  (fmupd ''b'' \<lparr>access_count = 0, last_access = 5, tier = TIER_4,
                                algorithm = NONE, original_size = 1, compressed_size = 1\<rparr>
                     fmempty)\<rparr>"

text \<open>
  Key \<open>''a''\<close> never read and key \<open>''b''\<close> read five times, both still in the coldest
  tier, in a store whose five reads so far were all of \<open>''b''\<close>.
\<close>

definition warm_b :: DbState where
  "warm_b =
     empty_db\<lparr>total_accesses := 5,
              data_store := fmupd ''a'' [1] (fmupd ''b'' [2] fmempty),
              metadata_store :=
                fmupd ''a'' \<lparr>access_count = 0, last_access = 10, tier = TIER_4, algorithm = NONE,
                             original_size = 1, compressed_size = 1\<rparr>
                  (fmupd ''b'' \<lparr>access_count = 5, last_access = 50, tier = TIER_4,
                                algorithm = NONE, original_size = 1, compressed_size = 1\<rparr>
                     fmempty)\<rparr>"

text \<open>The image data.db of a store that holds the one pair \<open>''a''\<close>, \<open>[65]\<close>.\<close>

definition one_record_dir :: "(string, bytes) fmap" where
  "one_record_dir = fmupd ''data.db'' (data_record (''a'', [65])) fmempty"

text \<open>A chunking engine with chunks of two bytes on an empty disk.\<close>

definition small_engine :: ChunkingEngine where
  "small_engine =
     \<lparr>storage_path = ''db'', chunks_dir = ''db/chunks'', default_chunk_size = 2,
      file_metadata = fmempty, disk = fmempty, disk_read_only = {||}\<rparr>"

text \<open>A pair of chunk codecs: the tier is put in front of the chunk and stripped again.\<close>

definition tier_tag :: "bytes \<Rightarrow> byte \<Rightarrow> bytes" where
  "tier_tag d t = t # d"

definition tier_untag :: "bytes \<Rightarrow> byte \<Rightarrow> nat \<Rightarrow> bytes" where
  "tier_untag d t n = take n (tl d)"

text \<open>
  A store over its size limit in which key \<open>''a''\<close> has been read once.
\<close>

definition read_once_db :: DbState where
  "read_once_db =
     crowded_db\<lparr>total_accesses := 1,
                 data_store := fmupd ''a'' [1] fmempty,
                 metadata_store :=
                   fmupd ''a'' \<lparr>access_count = 1, last_access = 50, tier = TIER_4,
                                algorithm = NONE, original_size = 1, compressed_size = 1\<rparr>
                     fmempty\<rparr>"

text \<open>The engine after five bytes were inserted under key \<open>''k''\<close>: three chunks.\<close>

definition three_chunks :: ChunkingEngine where
  "three_chunks =
     (case insert_chunked small_engine ''k'' [1, 2, 3, 4, 5] tier_tag of
        Inr e \<Rightarrow> e
      | Inl err \<Rightarrow> small_engine)"

text \<open>
  A library that returns from every call but \<open>LZ4_compress_HC\<close> on an empty source.
\<close>

definition null_source_fatal :: CodecCalls where
  "null_source_fatal =
     \<lparr>LZ4_compress_default_returns = (\<lambda>d. True),
      LZ4_compress_HC_returns = (\<lambda>d. d \<noteq> []),
      ZSTD_compress_returns = (\<lambda>level d. True),
      LZ4_decompress_safe_returns = (\<lambda>d n. True),
      ZSTD_decompress_returns = (\<lambda>d n. True)\<rparr>"

text \<open>
  A store with the one key \<open>''f''\<close>, as nine reads of it under \<open>default_config\<close> leave
  it: all nine accesses are its own, and it is in tier 0.
\<close>

definition nine_reads :: DbState where
  "nine_reads =
     empty_db\<lparr>total_accesses := 9,
              data_store := fmupd ''f'' [7] fmempty,
              metadata_store :=
                fmupd ''f'' \<lparr>access_count = 9, last_access = 90, tier = TIER_0, algorithm = NONE,
                             original_size = 1, compressed_size = 1\<rparr> fmempty\<rparr>"

text \<open>The value a call returns, without the state it leaves.\<close>

definition returned :: "error + ('a \<times> 's) \<Rightarrow> error + 'a" where
  "returned r = map_sum (\<lambda>e. e) fst r"

section \<open>Finite maps in key order\<close>

lemma keys_sorted_list_of_fmap:
  "map fst (sorted_list_of_fmap m) = sorted_list_of_fset (fmdom m)"
  by (simp add: sorted_list_of_fmap_def comp_def)

lemma distinct_sorted_list_of_fset: "distinct (sorted_list_of_fset S)"
  by (simp add: sorted_list_of_fset.rep_eq)

lemma distinct_keys_sorted_list_of_fmap: "distinct (map fst (sorted_list_of_fmap m))"
  by (simp add: keys_sorted_list_of_fmap distinct_sorted_list_of_fset)

lemma set_keys_sorted_list_of_fmap: "set (map fst (sorted_list_of_fmap m)) = fset (fmdom m)"
  by (simp add: keys_sorted_list_of_fmap)

lemma length_sorted_list_of_fmap: "length (sorted_list_of_fmap m) = size (fmdom m)"
proof -
  have "length (sorted_list_of_fmap m) = length (sorted_list_of_fset (fmdom m))"
    by (simp add: sorted_list_of_fmap_def)
  also have "\<dots> = card (set (sorted_list_of_fset (fmdom m)))"
    using distinct_card [OF distinct_sorted_list_of_fset, of "fmdom m"] by simp
  also have "\<dots> = size (fmdom m)"
    by (simp add: fcard.rep_eq)
  finally show ?thesis .
qed

lemma fold_fmupd_lookup:
  "distinct (map fst xs) \<Longrightarrow>
   fmlookup (fold (\<lambda>(k, d) store. fmupd k d store) xs m) j =
     (case map_of xs j of Some v \<Rightarrow> Some v | None \<Rightarrow> fmlookup m j)"
proof (induction xs arbitrary: m)
  case Nil
  then show ?case by simp
next
  case (Cons x xs)
  obtain k d where x: "x = (k, d)" by (cases x)
  from Cons.prems x have notin: "k \<notin> fst ` set xs" and dist: "distinct (map fst xs)"
    by auto
  from notin have none: "map_of xs k = None"
    by (simp add: map_of_eq_None_iff)
  show ?case
    using Cons.IH [OF dist, of "fmupd k d m"] x none
    by (auto split: option.splits)
qed

lemma flush_data_store:
  "fmlookup (data_store (flush s)) j =
     (case fmlookup (write_buffer s) j of Some v \<Rightarrow> Some v | None \<Rightarrow> fmlookup (data_store s) j)"
  by (simp add: flush_def fold_fmupd_lookup distinct_keys_sorted_list_of_fmap)

lemma flush_frame [simp]:
  "metadata_store (flush s) = metadata_store s"
  "total_accesses (flush s) = total_accesses s"
  "operations_since_reorg (flush s) = operations_since_reorg s"
  "last_reorg_time (flush s) = last_reorg_time s"
  "files (flush s) = files s"
  "read_only (flush s) = read_only s"
  "write_buffer (flush s) = fmempty"
  by (simp_all add: flush_def)

lemma stored_blob_flush: "stored_blob (flush s) j = stored_blob s j"
  by (simp add: stored_blob_def flush_data_store split: option.splits)

section \<open>What the operations of the store leave alone\<close>

lemma save_to_disk_frame [simp]:
  "data_store (save_to_disk s) = data_store s"
  "metadata_store (save_to_disk s) = metadata_store s"
  "write_buffer (save_to_disk s) = write_buffer s"
  "write_buffer_current_size (save_to_disk s) = write_buffer_current_size s"
  "total_accesses (save_to_disk s) = total_accesses s"
  "operations_since_reorg (save_to_disk s) = operations_since_reorg s"
  "last_reorg_time (save_to_disk s) = last_reorg_time s"
  "read_only (save_to_disk s) = read_only s"
  by (simp_all add: save_to_disk_def)

lemma save_metadata_frame [simp]:
  "data_store (save_metadata s) = data_store s"
  "metadata_store (save_metadata s) = metadata_store s"
  "write_buffer (save_metadata s) = write_buffer s"
  "write_buffer_current_size (save_metadata s) = write_buffer_current_size s"
  "total_accesses (save_metadata s) = total_accesses s"
  "operations_since_reorg (save_metadata s) = operations_since_reorg s"
  "last_reorg_time (save_metadata s) = last_reorg_time s"
  "read_only (save_metadata s) = read_only s"
  by (simp_all add: save_metadata_def)

lemma calculate_tier_cong:
  "total_accesses s' = total_accesses s \<Longrightarrow> calculate_tier s' ac = calculate_tier s ac"
  by (simp add: calculate_tier_def)

lemma calculate_tier_zero: "calculate_tier s 0 = TIER_4"
  by (simp add: calculate_tier_def)

lemma reorganize_entry_frame [simp]:
  "write_buffer (reorganize_entry lib cfg j s) = write_buffer s"
  "write_buffer_current_size (reorganize_entry lib cfg j s) = write_buffer_current_size s"
  "total_accesses (reorganize_entry lib cfg j s) = total_accesses s"
  "operations_since_reorg (reorganize_entry lib cfg j s) = operations_since_reorg s"
  "last_reorg_time (reorganize_entry lib cfg j s) = last_reorg_time s"
  "files (reorganize_entry lib cfg j s) = files s"
  "read_only (reorganize_entry lib cfg j s) = read_only s"
  by (simp_all add: reorganize_entry_def Let_def split: option.splits)

lemma reorganize_entry_other:
  "j \<noteq> k \<Longrightarrow>
     fmlookup (metadata_store (reorganize_entry lib cfg j s)) k = fmlookup (metadata_store s) k
     \<and> fmlookup (data_store (reorganize_entry lib cfg j s)) k = fmlookup (data_store s) k"
  by (simp add: reorganize_entry_def Let_def split: option.splits)

lemma reorganize_entry_access:
  "map_option access_count (fmlookup (metadata_store (reorganize_entry lib cfg j s)) k)
     = map_option access_count (fmlookup (metadata_store s) k)
   \<and> map_option last_access (fmlookup (metadata_store (reorganize_entry lib cfg j s)) k)
     = map_option last_access (fmlookup (metadata_store s) k)
   \<and> map_option original_size (fmlookup (metadata_store (reorganize_entry lib cfg j s)) k)
     = map_option original_size (fmlookup (metadata_store s) k)"
  by (simp add: reorganize_entry_def Let_def split: option.splits)

lemma reorganize_entry_settled:
  "fmlookup (metadata_store s) k = Some m \<Longrightarrow> tier m = calculate_tier s (access_count m) \<Longrightarrow>
   algorithm m = tc_algorithm (tier_configs cfg (tier m)) \<Longrightarrow>
   reorganize_entry lib cfg k s = s"
  by (simp add: reorganize_entry_def Let_def)

lemma fold_reorganize_frame [simp]:
  "write_buffer (fold (reorganize_entry lib cfg) ks s) = write_buffer s"
  "write_buffer_current_size (fold (reorganize_entry lib cfg) ks s) = write_buffer_current_size s"
  "total_accesses (fold (reorganize_entry lib cfg) ks s) = total_accesses s"
  "operations_since_reorg (fold (reorganize_entry lib cfg) ks s) = operations_since_reorg s"
  "last_reorg_time (fold (reorganize_entry lib cfg) ks s) = last_reorg_time s"
  "files (fold (reorganize_entry lib cfg) ks s) = files s"
  "read_only (fold (reorganize_entry lib cfg) ks s) = read_only s"
  by (induction ks arbitrary: s; simp)+

lemma fold_reorganize_access:
  "map_option access_count (fmlookup (metadata_store (fold (reorganize_entry lib cfg) ks s)) k)
     = map_option access_count (fmlookup (metadata_store s) k)
   \<and> map_option last_access (fmlookup (metadata_store (fold (reorganize_entry lib cfg) ks s)) k)
     = map_option last_access (fmlookup (metadata_store s) k)
   \<and> map_option original_size (fmlookup (metadata_store (fold (reorganize_entry lib cfg) ks s)) k)
     = map_option original_size (fmlookup (metadata_store s) k)"
proof (induction ks arbitrary: s)
  case Nil
  show ?case by simp
next
  case (Cons j ks)
  show ?case
    using Cons.IH [of "reorganize_entry lib cfg j s"] reorganize_entry_access [of lib cfg j s k]
    by simp
qed

lemma fold_reorganize_settled:
  assumes "fmlookup (metadata_store s) k = Some m"
      and "tier m = calculate_tier s (access_count m)"
      and "algorithm m = tc_algorithm (tier_configs cfg (tier m))"
  shows "fmlookup (metadata_store (fold (reorganize_entry lib cfg) ks s)) k = Some m
         \<and> fmlookup (data_store (fold (reorganize_entry lib cfg) ks s)) k
             = fmlookup (data_store s) k"
  using assms
proof (induction ks arbitrary: s)
  case Nil
  then show ?case by simp
next
  case (Cons j ks)
  let ?s1 = "reorganize_entry lib cfg j s"
  have same: "fmlookup (metadata_store ?s1) k = Some m
               \<and> fmlookup (data_store ?s1) k = fmlookup (data_store s) k"
  proof (cases "j = k")
    case True
    then show ?thesis using reorganize_entry_settled [OF Cons.prems, of lib] Cons.prems(1) by simp
  next
    case False
    then show ?thesis using reorganize_entry_other [OF False, of lib cfg s] Cons.prems(1) by simp
  qed
  have tier1: "tier m = calculate_tier ?s1 (access_count m)"
    using Cons.prems(2) calculate_tier_cong [of ?s1 s] by simp
  show ?case
    using Cons.IH [of ?s1, OF _ tier1 Cons.prems(3)] same by simp
qed

lemma reorganize_frame [simp]:
  "write_buffer (reorganize lib cfg now s) = write_buffer s"
  "write_buffer_current_size (reorganize lib cfg now s) = write_buffer_current_size s"
  "total_accesses (reorganize lib cfg now s) = total_accesses s"
  "read_only (reorganize lib cfg now s) = read_only s"
  by (simp_all add: reorganize_def Let_def)

lemma reorganize_access:
  "map_option access_count (fmlookup (metadata_store (reorganize lib cfg now s)) k)
     = map_option access_count (fmlookup (metadata_store s) k)
   \<and> map_option last_access (fmlookup (metadata_store (reorganize lib cfg now s)) k)
     = map_option last_access (fmlookup (metadata_store s) k)
   \<and> map_option original_size (fmlookup (metadata_store (reorganize lib cfg now s)) k)
     = map_option original_size (fmlookup (metadata_store s) k)"
  using fold_reorganize_access [of lib cfg _ s k] by (simp add: reorganize_def Let_def)

lemma reorganize_settled:
  assumes "fmlookup (metadata_store s) k = Some m"
      and "tier m = calculate_tier s (access_count m)"
      and "algorithm m = tc_algorithm (tier_configs cfg (tier m))"
  shows "fmlookup (metadata_store (reorganize lib cfg now s)) k = Some m
         \<and> fmlookup (data_store (reorganize lib cfg now s)) k = fmlookup (data_store s) k"
  using fold_reorganize_settled [OF assms, of lib] by (simp add: reorganize_def Let_def)

lemma after_operation_frame [simp]:
  "write_buffer (after_operation lib cfg now s) = write_buffer s"
  "write_buffer_current_size (after_operation lib cfg now s) = write_buffer_current_size s"
  "total_accesses (after_operation lib cfg now s) = total_accesses s"
  "read_only (after_operation lib cfg now s) = read_only s"
  by (simp_all add: after_operation_def check_reorganization_trigger_def)

lemma after_operation_access:
  "map_option access_count (fmlookup (metadata_store (after_operation lib cfg now s)) k)
     = map_option access_count (fmlookup (metadata_store s) k)
   \<and> map_option last_access (fmlookup (metadata_store (after_operation lib cfg now s)) k)
     = map_option last_access (fmlookup (metadata_store s) k)
   \<and> map_option original_size (fmlookup (metadata_store (after_operation lib cfg now s)) k)
     = map_option original_size (fmlookup (metadata_store s) k)"
  using reorganize_access [of lib cfg now "s\<lparr>operations_since_reorg := operations_since_reorg s + 1\<rparr>" k]
  by (simp add: after_operation_def check_reorganization_trigger_def)

lemma after_operation_settled:
  assumes "fmlookup (metadata_store s) k = Some m"
      and "tier m = calculate_tier s (access_count m)"
      and "algorithm m = tc_algorithm (tier_configs cfg (tier m))"
  shows "fmlookup (metadata_store (after_operation lib cfg now s)) k = Some m
         \<and> fmlookup (data_store (after_operation lib cfg now s)) k = fmlookup (data_store s) k"
proof -
  let ?s1 = "s\<lparr>operations_since_reorg := operations_since_reorg s + 1\<rparr>"
  have "fmlookup (metadata_store ?s1) k = Some m" using assms(1) by simp
  moreover have "tier m = calculate_tier ?s1 (access_count m)"
    using assms(2) calculate_tier_cong [of ?s1 s] by simp
  ultimately show ?thesis
    using reorganize_settled [of ?s1 k m cfg lib now] assms(1,3)
    by (simp add: after_operation_def check_reorganization_trigger_def)
qed

lemma after_operation_idle:
  "\<not> should_reorganize cfg now (s\<lparr>operations_since_reorg := operations_since_reorg s + 1\<rparr>) \<Longrightarrow>
   after_operation lib cfg now s = s\<lparr>operations_since_reorg := operations_since_reorg s + 1\<rparr>"
  by (simp add: after_operation_def check_reorganization_trigger_def)

lemma get_size_on_disk_cong: "files s' = files s \<Longrightarrow> get_size_on_disk s' = get_size_on_disk s"
  by (simp add: get_size_on_disk_def)

lemma check_size_limit_idle:
  "\<not> (allow_deletion cfg \<and> max_size_bytes cfg < get_size_on_disk s) \<Longrightarrow>
   check_size_limit cfg s = s"
  by (auto simp: check_size_limit_def)

lemma insert_binary_entry:
  assumes no_evict: "\<not> (allow_deletion cfg \<and> max_size_bytes cfg < get_size_on_disk s)"
      and buf: "lazy_persistence cfg \<or> fmlookup (write_buffer s) k = None"
  shows "stored_blob (insert_binary lib cfg now k b s) k
           = Some (if compression_enabled cfg then compress lib cfg b TIER_4 else b)
         \<and> fmlookup (metadata_store (insert_binary lib cfg now k b s)) k
           = Some \<lparr>access_count = 0, last_access = now, tier = TIER_4,
                   algorithm = tc_algorithm (tier_configs cfg TIER_4),
                   original_size = length b,
                   compressed_size =
                     length (if compression_enabled cfg then compress lib cfg b TIER_4 else b)\<rparr>"
proof -
  define c where "c = (if compression_enabled cfg then compress lib cfg b TIER_4 else b)"
  define md where "md = \<lparr>access_count = 0, last_access = now, tier = TIER_4,
                          algorithm = tc_algorithm (tier_configs cfg TIER_4),
                          original_size = length b, compressed_size = length c\<rparr>"
  define bf where "bf = s\<lparr>write_buffer := fmupd k c (write_buffer s),
                          write_buffer_current_size :=
                            write_buffer_current_size s + of_nat (length c)\<rparr>"
  define s1 where "s1 = (if lazy_persistence cfg then
                           (if write_buffer_current_size bf \<ge> write_buffer_size cfg
                            then flush bf else bf)
                         else s\<lparr>data_store := fmupd k c (data_store s)\<rparr>)"
  define s2 where "s2 = s1\<lparr>metadata_store := fmupd k md (metadata_store s1)\<rparr>"
  have ins: "insert_binary lib cfg now k b s = after_operation lib cfg now (check_size_limit cfg s2)"
    by (simp add: insert_binary_def Let_def s2_def s1_def bf_def md_def c_def)
  have blob0: "stored_blob bf k = Some c"
    by (simp add: stored_blob_def bf_def)
  have blob1: "stored_blob s1 k = Some c"
  proof (cases "lazy_persistence cfg")
    case True
    then show ?thesis using blob0 by (simp add: s1_def stored_blob_flush)
  next
    case False
    then show ?thesis using buf by (simp add: s1_def stored_blob_def)
  qed
  have blob2: "stored_blob s2 k = Some c"
    using blob1 by (simp add: s2_def stored_blob_def split: option.splits)
  have meta2: "fmlookup (metadata_store s2) k = Some md"
    by (simp add: s2_def)
  have "files s2 = files s"
    by (simp add: s2_def s1_def bf_def)
  then have "check_size_limit cfg s2 = s2"
    using no_evict check_size_limit_idle [of cfg s2] get_size_on_disk_cong [of s2 s] by simp
  then have ins2: "insert_binary lib cfg now k b s = after_operation lib cfg now s2"
    using ins by simp
  have settled: "tier md = calculate_tier s2 (access_count md)"
                "algorithm md = tc_algorithm (tier_configs cfg (tier md))"
    by (simp_all add: md_def calculate_tier_zero)
  have after: "fmlookup (metadata_store (after_operation lib cfg now s2)) k = Some md"
              "fmlookup (data_store (after_operation lib cfg now s2)) k = fmlookup (data_store s2) k"
    using after_operation_settled [OF meta2 settled, of lib now] by simp_all
  have "stored_blob (after_operation lib cfg now s2) k = stored_blob s2 k"
    using after(2) by (simp add: stored_blob_def split: option.splits)
  then show ?thesis
    using ins2 after(1) blob2 by (simp add: md_def c_def)
qed

lemma get_binary_hit:
  assumes blob: "stored_blob s k = Some c"
      and meta: "fmlookup (metadata_store s) k = Some m"
  shows "returned (get_binary lib cfg now k s)
           = Inr (Some (if compression_enabled cfg
                        then decompress lib c (algorithm m) (original_size m) else c))"
proof -
  let ?s1 = "if fmlookup (write_buffer s) k \<noteq> None then flush s else s"
  have data: "fmlookup (data_store ?s1) k = Some c"
    using blob by (auto simp: stored_blob_def flush_data_store split: option.splits)
  have meta1: "fmlookup (metadata_store ?s1) k = Some m"
    using meta by simp
  show ?thesis
    unfolding get_binary_def Let_def returned_def
    using data meta1 by (simp del: flush_frame split: if_splits)
qed

lemma fmdom_empty_iff: "(m = fmempty) = (fmdom m = {||})"
proof
  assume "fmdom m = {||}"
  then have "\<And>x. fmlookup m x = None"
    by (metis fmdom_notD fempty_iff)
  then show "m = fmempty" by (intro fmap_ext) simp
qed simp

lemma should_reorganize_cong:
  assumes "operations_since_reorg s' = operations_since_reorg s"
      and "last_reorg_time s' = last_reorg_time s"
      and "fmdom (metadata_store s') = fmdom (metadata_store s)"
  shows "should_reorganize cfg now s' = should_reorganize cfg now s"
  using assms
  by (simp add: should_reorganize_def calculate_access_pattern_change_def fmdom_empty_iff
           split: ReorgStrategy.splits)

text \<open>
  The write buffer is used under lazy persistence only: with the flag off, a store that
  was opened by the constructor keeps an empty buffer through every operation.
\<close>

lemma fold_erase_key_buffer:
  "write_buffer s = fmempty \<Longrightarrow> write_buffer (fold erase_key ks s) = fmempty"
  by (induction ks arbitrary: s) (simp_all add: erase_key_def)

lemma insert_binary_buffer_unused:
  assumes "\<not> lazy_persistence cfg" and "write_buffer s = fmempty"
  shows "write_buffer (insert_binary lib cfg now k b s) = fmempty"
  using assms
  by (simp add: insert_binary_def Let_def check_size_limit_def delete_coldest_data_def
                fold_erase_key_buffer)

lemma get_binary_buffer_unused:
  assumes "write_buffer s = fmempty" and "get_binary lib cfg now k s = Inr (r, s')"
  shows "write_buffer s' = fmempty"
  using assms by (auto simp: get_binary_def Let_def split: option.splits)

lemma remove_buffer_unused:
  "write_buffer s = fmempty \<Longrightarrow> write_buffer (snd (remove lib cfg now k s)) = fmempty"
  by (simp add: remove_def Let_def erase_key_def)

lemma open_database_buffer_unused:
  "open_database dir ro now = Inr s \<Longrightarrow> write_buffer s = fmempty"
  by (auto simp: open_database_def load_from_disk_def load_metadata_def initial_state_def
           split: option.splits sum.splits if_splits)

section \<open>Calls on sources that are not empty\<close>

text \<open>
  When no stored blob is empty and no recorded size is 0, a reorganization hands only
  non-empty vectors to the codecs and leaves the store that way: a decoded value has
  \<open>original_size\<close> bytes or is the blob itself, and an encoded one is the output of the
  library or the plaintext itself. \<open>Q\<close> holds for the recorded sizes.
\<close>

lemma insert_binary_hook:
  "insert_binary lib cfg now k b s
     = after_operation lib cfg now (insert_binary_stored lib cfg now k b s)"
  by (simp add: insert_binary_def insert_binary_stored_def Let_def)

lemma no_empty_value_iff:
  "no_empty_value s \<longleftrightarrow>
     (\<forall>j x. fmlookup (data_store s) j = Some x \<longrightarrow> x \<noteq> [])
     \<and> (\<forall>j x. fmlookup (write_buffer s) j = Some x \<longrightarrow> x \<noteq> [])
     \<and> (\<forall>j m. fmlookup (metadata_store s) j = Some m \<longrightarrow> original_size m \<noteq> 0)"
  by (auto simp: no_empty_value_def fmpred_iff)

lemma length_fill_buffer: "length (fill_buffer n w) = n"
  by (simp add: fill_buffer_def)

lemma decompress_nonempty:
  assumes "d \<noteq> []" and "n \<noteq> 0"
  shows "decompress lib d a n \<noteq> []"
proof -
  have "\<And>w. fill_buffer n w \<noteq> []"
    using assms(2) length_fill_buffer [of n] by (metis list.size(3))
  then show ?thesis
    using assms(1)
    by (simp add: decompress_def decompress_with_algo_def
             split: CompressionAlgo.splits option.splits)
qed


lemma reorganize_entry_sound:
  assumes data: "\<forall>j x. fmlookup (data_store s) j = Some x \<longrightarrow> x \<noteq> []"
      and meta: "\<forall>j m. fmlookup (metadata_store s) j = Some m \<longrightarrow>
                   original_size m \<noteq> 0 \<and> Q (original_size m)"
      and comp: "\<forall>d a. d \<noteq> [] \<longrightarrow>
                   compress_with_algo lib d a \<noteq> [] \<and> compress_with_algo_returns calls d a"
      and dec: "\<forall>d a n. d \<noteq> [] \<and> Q n \<longrightarrow> decompress_with_algo_returns calls d a n"
  shows "reorganize_entry_returns calls lib cfg k s
         \<and> (\<forall>j x. fmlookup (data_store (reorganize_entry lib cfg k s)) j = Some x \<longrightarrow> x \<noteq> [])
         \<and> (\<forall>j m. fmlookup (metadata_store (reorganize_entry lib cfg k s)) j = Some m \<longrightarrow>
                original_size m \<noteq> 0 \<and> Q (original_size m))"
proof (cases "fmlookup (metadata_store s) k")
  case None
  then show ?thesis
    using data meta by (simp add: reorganize_entry_returns_def reorganize_entry_def)
next
  case (Some m)
  note m = Some
  from meta m have sz: "original_size m \<noteq> 0" "Q (original_size m)" by auto
  show ?thesis
  proof (cases "fmlookup (data_store s) k")
    case None
    then show ?thesis
      using data meta m
      by (simp add: reorganize_entry_returns_def reorganize_entry_def Let_def)
  next
    case (Some blob)
    from data Some have blob: "blob \<noteq> []" by auto
    let ?p = "decompress lib blob (algorithm m) (original_size m)"
    have p: "?p \<noteq> []"
      using decompress_nonempty [OF blob sz(1)] .
    have d: "decompress_with_algo_returns calls blob (algorithm m) (original_size m)"
      using dec blob sz(2) by blast
    have c: "\<And>a. compress_with_algo lib ?p a \<noteq> []" "\<And>a. compress_with_algo_returns calls ?p a"
      using comp p by blast+
    have ret: "reorganize_entry_returns calls lib cfg k s"
      using m Some d c by (simp add: reorganize_entry_returns_def Let_def)
    have dat: "\<forall>j x. fmlookup (data_store (reorganize_entry lib cfg k s)) j = Some x \<longrightarrow> x \<noteq> []"
      using m Some data blob c(1)
      by (auto simp: reorganize_entry_def Let_def split: if_splits)
    have "\<forall>j. map_option original_size (fmlookup (metadata_store (reorganize_entry lib cfg k s)) j)
               = map_option original_size (fmlookup (metadata_store s) j)"
      using reorganize_entry_access [of lib cfg k s] by blast
    then have same: "\<And>j. map_option original_size
                              (fmlookup (metadata_store (reorganize_entry lib cfg k s)) j)
                            = map_option original_size (fmlookup (metadata_store s) j)"
      by blast
    have met: "\<forall>j m'. fmlookup (metadata_store (reorganize_entry lib cfg k s)) j = Some m' \<longrightarrow>
                 original_size m' \<noteq> 0 \<and> Q (original_size m')"
    proof (intro allI impI)
      fix j m'
      assume "fmlookup (metadata_store (reorganize_entry lib cfg k s)) j = Some m'"
      with same [of j] obtain m0 where "fmlookup (metadata_store s) j = Some m0"
        and "original_size m0 = original_size m'"
        by (cases "fmlookup (metadata_store s) j") auto
      with meta show "original_size m' \<noteq> 0 \<and> Q (original_size m')" by metis
    qed
    from ret dat met show ?thesis by blast
  qed
qed

lemma reorganize_entries_sound:
  assumes data: "\<forall>j x. fmlookup (data_store s) j = Some x \<longrightarrow> x \<noteq> []"
      and meta: "\<forall>j m. fmlookup (metadata_store s) j = Some m \<longrightarrow>
                   original_size m \<noteq> 0 \<and> Q (original_size m)"
      and comp: "\<forall>d a. d \<noteq> [] \<longrightarrow>
                   compress_with_algo lib d a \<noteq> [] \<and> compress_with_algo_returns calls d a"
      and dec: "\<forall>d a n. d \<noteq> [] \<and> Q n \<longrightarrow> decompress_with_algo_returns calls d a n"
  shows "reorganize_entries_return calls lib cfg ks s
         \<and> (\<forall>j x. fmlookup (data_store (fold (reorganize_entry lib cfg) ks s)) j = Some x
                \<longrightarrow> x \<noteq> [])
         \<and> (\<forall>j m. fmlookup (metadata_store (fold (reorganize_entry lib cfg) ks s)) j = Some m
                \<longrightarrow> original_size m \<noteq> 0 \<and> Q (original_size m))"
  using data meta
proof (induction ks arbitrary: s)
  case Nil
  then show ?case by simp
next
  case (Cons k ks)
  from reorganize_entry_sound [OF Cons.prems comp dec, of cfg k]
  have one: "reorganize_entry_returns calls lib cfg k s"
    and d1: "\<forall>j x. fmlookup (data_store (reorganize_entry lib cfg k s)) j = Some x \<longrightarrow> x \<noteq> []"
    and m1: "\<forall>j m. fmlookup (metadata_store (reorganize_entry lib cfg k s)) j = Some m \<longrightarrow>
               original_size m \<noteq> 0 \<and> Q (original_size m)"
    by blast+
  from Cons.IH [OF d1 m1] one show ?case by simp
qed

lemma reorganize_entries_plain:
  "\<not> compression_enabled cfg \<Longrightarrow> reorganize_entries_return calls lib cfg ks s"
  by (induction ks arbitrary: s)
     (simp_all add: reorganize_entry_returns_def Let_def split: option.splits)

lemma after_operation_sound:
  assumes data: "\<forall>j x. fmlookup (data_store s) j = Some x \<longrightarrow> x \<noteq> []"
      and meta: "\<forall>j m. fmlookup (metadata_store s) j = Some m \<longrightarrow>
                   original_size m \<noteq> 0 \<and> Q (original_size m)"
      and comp: "\<forall>d a. d \<noteq> [] \<longrightarrow>
                   compress_with_algo lib d a \<noteq> [] \<and> compress_with_algo_returns calls d a"
      and dec: "\<forall>d a n. d \<noteq> [] \<and> Q n \<longrightarrow> decompress_with_algo_returns calls d a n"
  shows "after_operation_returns calls lib cfg now s
         \<and> (\<forall>j x. fmlookup (data_store (after_operation lib cfg now s)) j = Some x \<longrightarrow> x \<noteq> [])
         \<and> (\<forall>j m. fmlookup (metadata_store (after_operation lib cfg now s)) j = Some m \<longrightarrow>
                original_size m \<noteq> 0 \<and> Q (original_size m))"
proof -
  let ?s1 = "s\<lparr>operations_since_reorg := operations_since_reorg s + 1\<rparr>"
  have d1: "\<forall>j x. fmlookup (data_store ?s1) j = Some x \<longrightarrow> x \<noteq> []"
    using data by simp
  have m1: "\<forall>j m. fmlookup (metadata_store ?s1) j = Some m \<longrightarrow>
              original_size m \<noteq> 0 \<and> Q (original_size m)"
    using meta by simp
  show ?thesis
    using reorganize_entries_sound [OF d1 m1 comp dec, of cfg
            "map fst (sorted_list_of_fmap (metadata_store ?s1))"] data meta
    by (simp add: after_operation_returns_def after_operation_def
                  check_reorganization_trigger_def reorganize_returns_def reorganize_def Let_def)
qed

lemma after_operation_manual:
  "reorg_strategy cfg = MANUAL \<Longrightarrow> after_operation_returns calls lib cfg now s"
  by (simp add: after_operation_returns_def should_reorganize_def Let_def)

lemma after_operation_plain:
  "\<not> compression_enabled cfg \<Longrightarrow> after_operation_returns calls lib cfg now s"
  by (simp add: after_operation_returns_def reorganize_returns_def reorganize_entries_plain Let_def)


lemma insert_binary_stored_sound:
  assumes no_evict: "\<not> (allow_deletion cfg \<and> max_size_bytes cfg < get_size_on_disk s)"
      and c: "(if compression_enabled cfg then compress lib cfg b TIER_4 else b) \<noteq> []"
      and b: "b \<noteq> []" "Q (length b)"
      and data: "\<forall>j x. fmlookup (data_store s) j = Some x \<longrightarrow> x \<noteq> []"
      and wb: "\<forall>j x. fmlookup (write_buffer s) j = Some x \<longrightarrow> x \<noteq> []"
      and meta: "\<forall>j m. fmlookup (metadata_store s) j = Some m \<longrightarrow>
                   original_size m \<noteq> 0 \<and> Q (original_size m)"
  shows "(\<forall>j x. fmlookup (data_store (insert_binary_stored lib cfg now k b s)) j = Some x
             \<longrightarrow> x \<noteq> [])
         \<and> (\<forall>j x. fmlookup (write_buffer (insert_binary_stored lib cfg now k b s)) j = Some x
                \<longrightarrow> x \<noteq> [])
         \<and> (\<forall>j m. fmlookup (metadata_store (insert_binary_stored lib cfg now k b s)) j = Some m
                \<longrightarrow> original_size m \<noteq> 0 \<and> Q (original_size m))"
proof -
  define c where "c = (if compression_enabled cfg then compress lib cfg b TIER_4 else b)"
  define md where "md = \<lparr>access_count = 0, last_access = now, tier = TIER_4,
                          algorithm = tc_algorithm (tier_configs cfg TIER_4),
                          original_size = length b, compressed_size = length c\<rparr>"
  define bf where "bf = s\<lparr>write_buffer := fmupd k c (write_buffer s),
                          write_buffer_current_size :=
                            write_buffer_current_size s + of_nat (length c)\<rparr>"
  define s1 where "s1 = (if lazy_persistence cfg then
                           (if write_buffer_current_size bf \<ge> write_buffer_size cfg
                            then flush bf else bf)
                         else s\<lparr>data_store := fmupd k c (data_store s)\<rparr>)"
  define s2 where "s2 = s1\<lparr>metadata_store := fmupd k md (metadata_store s1)\<rparr>"
  have st: "insert_binary_stored lib cfg now k b s = check_size_limit cfg s2"
    by (simp add: insert_binary_stored_def Let_def s2_def s1_def bf_def md_def c_def)
  have "files s2 = files s"
    by (simp add: s2_def s1_def bf_def)
  then have "check_size_limit cfg s2 = s2"
    using no_evict check_size_limit_idle [of cfg s2] get_size_on_disk_cong [of s2 s] by simp
  then have st2: "insert_binary_stored lib cfg now k b s = s2"
    using st by simp
  have cne: "c \<noteq> []" using c by (simp add: c_def)
  have bf_wb: "\<forall>j x. fmlookup (write_buffer bf) j = Some x \<longrightarrow> x \<noteq> []"
    using wb cne by (simp add: bf_def)
  have bf_data: "\<forall>j x. fmlookup (data_store bf) j = Some x \<longrightarrow> x \<noteq> []"
    using data by (simp add: bf_def)
  have fl_data: "\<forall>j x. fmlookup (data_store (flush bf)) j = Some x \<longrightarrow> x \<noteq> []"
    using bf_wb bf_data by (auto simp: flush_data_store split: option.splits)
  have d1: "\<forall>j x. fmlookup (data_store s1) j = Some x \<longrightarrow> x \<noteq> []"
    using fl_data bf_data data cne by (simp add: s1_def)
  have w1: "\<forall>j x. fmlookup (write_buffer s1) j = Some x \<longrightarrow> x \<noteq> []"
    using bf_wb wb by (simp add: s1_def)
  have m1: "metadata_store s1 = metadata_store s"
    by (simp add: s1_def bf_def)
  have m2: "\<forall>j m. fmlookup (metadata_store s2) j = Some m \<longrightarrow>
              original_size m \<noteq> 0 \<and> Q (original_size m)"
    using meta b m1 by (simp add: s2_def md_def)
  show ?thesis
    using d1 w1 m2 unfolding st2 by (simp add: s2_def)
qed

lemma get_binary_sound:
  assumes blob: "stored_blob s k = Some c"
      and meta_k: "fmlookup (metadata_store s) k = Some m"
      and own: "compression_enabled cfg \<longrightarrow>
                  decompress_with_algo_returns calls c (algorithm m) (original_size m)"
      and recode: "reorg_strategy cfg = MANUAL \<or> \<not> compression_enabled cfg
           \<or> ((\<forall>j x. fmlookup (data_store s) j = Some x \<longrightarrow> x \<noteq> [])
               \<and> (\<forall>j x. fmlookup (write_buffer s) j = Some x \<longrightarrow> x \<noteq> [])
               \<and> (\<forall>j m. fmlookup (metadata_store s) j = Some m \<longrightarrow>
                      original_size m \<noteq> 0 \<and> Q (original_size m))
               \<and> (\<forall>d a. d \<noteq> [] \<longrightarrow>
                      compress_with_algo lib d a \<noteq> [] \<and> compress_with_algo_returns calls d a)
               \<and> (\<forall>d a n. d \<noteq> [] \<and> Q n \<longrightarrow> decompress_with_algo_returns calls d a n))"
  shows "get_binary_returns calls lib cfg now k s"
proof -
  define s1 where "s1 = (if fmlookup (write_buffer s) k \<noteq> None then flush s else s)"
  define md where "md = m\<lparr>access_count := access_count m + 1, last_access := now\<rparr>"
  define s2 where "s2 = s1\<lparr>metadata_store := fmupd k md (metadata_store s1),
                            total_accesses := total_accesses s1 + 1\<rparr>"
  have data_k: "fmlookup (data_store s1) k = Some c"
    using blob by (auto simp: s1_def stored_blob_def flush_data_store split: option.splits)
  have meta1: "metadata_store s1 = metadata_store s"
    by (simp add: s1_def)
  have unfold: "get_binary_returns calls lib cfg now k s
         = ((if compression_enabled cfg
             then decompress_with_algo_returns calls c (algorithm md) (original_size md)
             else True)
            \<and> after_operation_returns calls lib cfg now s2)"
  proof -
    have "get_binary_returns calls lib cfg now k s
            = (case fmlookup (data_store s1) k of
                 None \<Rightarrow> True
               | Some compressed \<Rightarrow>
                   (case fmlookup (metadata_store s1) k of
                      None \<Rightarrow> False
                    | Some m \<Rightarrow>
                        ((if compression_enabled cfg
                          then decompress_with_algo_returns calls compressed
                                 (algorithm (m\<lparr>access_count := access_count m + 1,
                                               last_access := now\<rparr>))
                                 (original_size (m\<lparr>access_count := access_count m + 1,
                                                   last_access := now\<rparr>))
                          else True)
                         \<and> after_operation_returns calls lib cfg now
                             (s1\<lparr>metadata_store :=
                                   fmupd k (m\<lparr>access_count := access_count m + 1,
                                              last_access := now\<rparr>) (metadata_store s1),
                                 total_accesses := total_accesses s1 + 1\<rparr>))))"
      by (simp only: get_binary_returns_def Let_def s1_def)
    then show ?thesis
      using data_k meta_k by (simp add: meta1 md_def s2_def)
  qed
  have own': "(if compression_enabled cfg
               then decompress_with_algo_returns calls c (algorithm md) (original_size md)
               else True)"
    using own by (simp add: md_def)
  have "after_operation_returns calls lib cfg now s2"
  proof -
    consider (manual) "reorg_strategy cfg = MANUAL" | (plain) "\<not> compression_enabled cfg"
      | (sound) "(\<forall>j x. fmlookup (data_store s) j = Some x \<longrightarrow> x \<noteq> [])"
                "(\<forall>j x. fmlookup (write_buffer s) j = Some x \<longrightarrow> x \<noteq> [])"
                "(\<forall>j m. fmlookup (metadata_store s) j = Some m \<longrightarrow>
                      original_size m \<noteq> 0 \<and> Q (original_size m))"
                "(\<forall>d a. d \<noteq> [] \<longrightarrow>
                      compress_with_algo lib d a \<noteq> [] \<and> compress_with_algo_returns calls d a)"
                "(\<forall>d a n. d \<noteq> [] \<and> Q n \<longrightarrow> decompress_with_algo_returns calls d a n)"
      using recode by blast
    then show ?thesis
    proof cases
      case manual
      then show ?thesis by (rule after_operation_manual)
    next
      case plain
      then show ?thesis by (rule after_operation_plain)
    next
      case sound
      have d1: "\<forall>j x. fmlookup (data_store s1) j = Some x \<longrightarrow> x \<noteq> []"
        using sound(1,2) by (auto simp: s1_def flush_data_store split: option.splits)
      have d2: "\<forall>j x. fmlookup (data_store s2) j = Some x \<longrightarrow> x \<noteq> []"
        using d1 by (simp add: s2_def)
      have m2: "\<forall>j m. fmlookup (metadata_store s2) j = Some m \<longrightarrow>
                  original_size m \<noteq> 0 \<and> Q (original_size m)"
        using sound(3) meta_k meta1 by (simp add: s2_def md_def)
      show ?thesis
        using after_operation_sound [where cfg = cfg and now = now, OF d2 m2 sound(4,5)] by blast
    qed
  qed
  with own' unfold show ?thesis by simp
qed

text \<open>A read that returns in this sense is not the \<open>Inl\<close> of \<open>get_binary\<close>.\<close>

lemma get_binary_returns_value:
  assumes "get_binary_returns calls lib cfg now k s"
  shows "\<exists>r. get_binary lib cfg now k s = Inr r"
proof -
  define s1 where "s1 = (if fmlookup (write_buffer s) k \<noteq> None then flush s else s)"
  have ret: "(case fmlookup (data_store s1) k of
                None \<Rightarrow> True
              | Some compressed \<Rightarrow> fmlookup (metadata_store s1) k \<noteq> None)"
    using assms unfolding get_binary_returns_def Let_def s1_def [symmetric]
    by (auto split: option.splits)
  show ?thesis
    unfolding get_binary_def Let_def s1_def [symmetric]
    using ret by (auto split: option.splits)
qed

section \<open>Insert followed by read (C1)\<close>


text \<open>
  The amended statement below leaves custom hooks aside. With the pair of hooks of
  \<open>hook_config\<close> the blob is written through \<open>compress_fn\<close> and read back without
  \<open>decompress_fn\<close>:
\<close>

lemma custom_hook_not_inverted:
  "returned (get_binary tag_lib hook_config 8 ''k''
      (insert_binary tag_lib hook_config 7 ''k'' [1, 2, 3] empty_db)) = Inr (Some [3, 2, 1])"
  by code_simp

text \<open>
  The amended statement also leaves aside a call into a codec library that does not
  come back. Key \<open>''f''\<close> has been read nine times, the empty value is inserted under
  \<open>''k''\<close> and read: the read counts one access in ten for \<open>''k''\<close>, the reorganization
  that it runs before it returns moves \<open>''k''\<close> to tier 2, and \<open>compress_with_algo\<close> hands
  the empty plaintext to \<open>LZ4_compress_HC\<close>. What \<open>get_binary\<close> computes is the value
  the read would return; with a library whose \<open>LZ4_compress_HC\<close> needs a source, the
  call does not return.
\<close>

lemma empty_value_reaches_lz4_hc:
  "returned (get_binary tag_lib default_config 101 ''k''
      (insert_binary tag_lib default_config 100 ''k'' [] nine_reads)) = Inr (Some [])
   \<and> insert_binary_returns null_source_fatal tag_lib default_config 100 ''k'' [] nine_reads
   \<and> \<not> get_binary_returns null_source_fatal tag_lib default_config 101 ''k''
         (insert_binary tag_lib default_config 100 ''k'' [] nine_reads)"
  by code_simp

text \<open>
  Under the manual strategy no reorganization runs, and the empty value goes through
  the codec of tier 4 only:
\<close>

lemma empty_value_manual_strategy:
  "returned (get_binary tag_lib manual_config 101 ''k''
      (insert_binary tag_lib manual_config 100 ''k'' [] nine_reads)) = Inr (Some [])
   \<and> insert_binary_returns null_source_fatal tag_lib manual_config 100 ''k'' [] nine_reads
   \<and> get_binary_returns null_source_fatal tag_lib manual_config 101 ''k''
         (insert_binary tag_lib manual_config 100 ''k'' [] nine_reads)"
  by code_simp



section \<open>The metadata an insert leaves (C5)\<close>

text \<open>
  C5 says that after every \<open>insert_binary(k, b)\<close> the metadata record of \<open>k\<close> has
  tier 4, the algorithm of tier 4, access count 0, the current time, \<open>|b|\<close> and the
  length of the stored blob. In a directory over the limit with deletion allowed the
  insert evicts the key it has just written, and no record is left.
\<close>

theorem insert_metadata_evicted:
  "fmlookup (metadata_store (insert_binary tag_lib evicting_config 7 ''k'' [1, 2, 3] crowded_db))
     ''k'' = None"
  by code_simp

text \<open>
  C5, amended: after an \<open>insert_binary(k, b)\<close> that evicts nothing (deletion is not
  allowed or the directory is within \<open>max_size_bytes\<close>), in a store whose write buffer
  holds \<open>k\<close> only under lazy persistence, the metadata record of \<open>k\<close> has tier
  \<open>TIER_4\<close>, the algorithm configured for tier 4, access count 0, \<open>last_access\<close> the
  current time, \<open>original_size = |b|\<close>, and \<open>compressed_size\<close> the length of the blob
  stored for \<open>k\<close>.
\<close>

theorem insert_binary_metadata:
  assumes "\<not> (allow_deletion cfg \<and> max_size_bytes cfg < get_size_on_disk s)"
      and "lazy_persistence cfg \<or> fmlookup (write_buffer s) k = None"
  shows "\<exists>blob. stored_blob (insert_binary lib cfg now k b s) k = Some blob
           \<and> fmlookup (metadata_store (insert_binary lib cfg now k b s)) k
               = Some \<lparr>access_count = 0, last_access = now, tier = TIER_4,
                       algorithm = tc_algorithm (tier_configs cfg TIER_4),
                       original_size = length b, compressed_size = length blob\<rparr>"
  using insert_binary_entry [OF assms, of lib now b] by blast

theorem insert_binary_metadata_witness:
  "\<not> (allow_deletion lazy_config \<and> max_size_bytes lazy_config < get_size_on_disk empty_db)
   \<and> (lazy_persistence lazy_config \<or> fmlookup (write_buffer empty_db) ''k'' = None)
   \<and> (\<exists>blob. stored_blob (insert_binary tag_lib lazy_config 7 ''k'' [1] empty_db) ''k'' = Some blob
           \<and> fmlookup (metadata_store (insert_binary tag_lib lazy_config 7 ''k'' [1] empty_db)) ''k''
               = Some \<lparr>access_count = 0, last_access = 7, tier = TIER_4,
                       algorithm = tc_algorithm (tier_configs lazy_config TIER_4),
                       original_size = length [1 :: byte], compressed_size = length blob\<rparr>)"
proof -
  have h1: "\<not> (allow_deletion lazy_config \<and> max_size_bytes lazy_config < get_size_on_disk empty_db)"
    by code_simp
  have h2: "lazy_persistence lazy_config \<or> fmlookup (write_buffer empty_db) ''k'' = None"
    by code_simp
  show ?thesis
    using insert_binary_metadata [OF h1 h2, of tag_lib 7 "[1]"] h1 h2 by blast
qed

section \<open>The bookkeeping of a read (C7)\<close>

text \<open>
  C7 says that a read that returns data increments the key's access count by one, sets
  its \<open>last_access\<close> to the current time, increments \<open>total_accesses\<close> by one, and
  changes no other key's metadata. When the read trips the reorganization threshold,
  the reorganization that follows moves other keys to new tiers: here the read of
  \<open>''a''\<close> moves \<open>''b''\<close> from tier 4 to tier 0.
\<close>

theorem get_changes_other_key:
  "returned (get_binary tag_lib every_op_config 60 ''a'' warm_b) = Inr (Some [1])
   \<and> map_option tier (fmlookup (metadata_store warm_b) ''b'') = Some TIER_4
   \<and> (case get_binary tag_lib every_op_config 60 ''a'' warm_b of
         Inl e \<Rightarrow> None
       | Inr (v, s) \<Rightarrow> map_option tier (fmlookup (metadata_store s) ''b'')) = Some TIER_0"
  by code_simp

text \<open>
  C7, amended: every \<open>get_binary\<close> that returns data finds a metadata record for the
  key, increments its access count by exactly one (the counters are 64-bit unsigned),
  sets its \<open>last_access\<close> to the current time and increments \<open>total_accesses\<close> by
  one; no other key's access count or \<open>last_access\<close> changes; and when the read does
  not trigger a reorganization, no other key's metadata changes at all.
\<close>

theorem get_binary_hit_bookkeeping:
  assumes hit: "get_binary lib cfg now k s = Inr (Some v, s')"
  shows "\<exists>m m'. fmlookup (metadata_store s) k = Some m
           \<and> fmlookup (metadata_store s') k = Some m'
           \<and> access_count m' = access_count m + 1
           \<and> last_access m' = now
           \<and> total_accesses s' = total_accesses s + 1
           \<and> (\<forall>j. j \<noteq> k \<longrightarrow>
                 map_option access_count (fmlookup (metadata_store s') j)
                   = map_option access_count (fmlookup (metadata_store s) j)
                 \<and> map_option last_access (fmlookup (metadata_store s') j)
                   = map_option last_access (fmlookup (metadata_store s) j))
           \<and> (\<not> should_reorganize cfg now
                    (s\<lparr>operations_since_reorg := operations_since_reorg s + 1\<rparr>) \<longrightarrow>
                 metadata_store s'
                   = fmupd k (m\<lparr>access_count := access_count m + 1, last_access := now\<rparr>)
                       (metadata_store s))"
proof -
  define s1 where "s1 = (if fmlookup (write_buffer s) k \<noteq> None then flush s else s)"
  have frame1: "metadata_store s1 = metadata_store s" "total_accesses s1 = total_accesses s"
               "operations_since_reorg s1 = operations_since_reorg s"
               "last_reorg_time s1 = last_reorg_time s"
    by (simp_all add: s1_def)
  from hit obtain c m where meta: "fmlookup (metadata_store s1) k = Some m"
    and s': "s' = after_operation lib cfg now
                    (s1\<lparr>metadata_store :=
                          fmupd k (m\<lparr>access_count := access_count m + 1, last_access := now\<rparr>)
                            (metadata_store s1),
                        total_accesses := total_accesses s1 + 1\<rparr>)"
    unfolding get_binary_def Let_def s1_def [symmetric]
    by (auto split: option.splits)
  define md where "md = m\<lparr>access_count := access_count m + 1, last_access := now\<rparr>"
  define s2 where "s2 = s1\<lparr>metadata_store := fmupd k md (metadata_store s1),
                            total_accesses := total_accesses s1 + 1\<rparr>"
  have s'2: "s' = after_operation lib cfg now s2"
    using s' by (simp add: s2_def md_def)
  have acc: "map_option access_count (fmlookup (metadata_store s') j)
               = map_option access_count (fmlookup (metadata_store s2) j)"
            "map_option last_access (fmlookup (metadata_store s') j)
               = map_option last_access (fmlookup (metadata_store s2) j)" for j
    using after_operation_access [of lib cfg now s2 j] s'2 by simp_all
  have "map_option access_count (fmlookup (metadata_store s') k) = Some (access_count m + 1)"
       "map_option last_access (fmlookup (metadata_store s') k) = Some now"
    using acc [of k] by (simp_all add: s2_def md_def)
  then obtain m' where m': "fmlookup (metadata_store s') k = Some m'"
      "access_count m' = access_count m + 1" "last_access m' = now"
    by auto
  have total: "total_accesses s' = total_accesses s + 1"
    using s'2 frame1 by (simp add: s2_def)
  have others: "j \<noteq> k \<Longrightarrow>
        map_option access_count (fmlookup (metadata_store s') j)
          = map_option access_count (fmlookup (metadata_store s) j)
        \<and> map_option last_access (fmlookup (metadata_store s') j)
          = map_option last_access (fmlookup (metadata_store s) j)" for j
    using acc [of j] frame1 by (simp add: s2_def)
  have dom2: "fmdom (metadata_store s2) = fmdom (metadata_store s)"
    using meta frame1 by (auto simp: s2_def fmdomI)
  have trig: "should_reorganize cfg now
                (s2\<lparr>operations_since_reorg := operations_since_reorg s2 + 1\<rparr>)
              = should_reorganize cfg now
                  (s\<lparr>operations_since_reorg := operations_since_reorg s + 1\<rparr>)"
    by (rule should_reorganize_cong) (simp_all add: dom2, simp_all add: s2_def frame1)
  have idle: "\<not> should_reorganize cfg now
                  (s\<lparr>operations_since_reorg := operations_since_reorg s + 1\<rparr>) \<Longrightarrow>
              metadata_store s' = fmupd k md (metadata_store s)"
    using after_operation_idle [of cfg now s2 lib] trig s'2 frame1 by (simp add: s2_def)
  show ?thesis
    using meta frame1 m' total others idle by (auto simp: md_def)
qed

theorem get_binary_hit_bookkeeping_witness:
  "get_binary tag_lib every_op_config 60 ''a'' warm_b
     = Inr (Some [1], snd (projr (get_binary tag_lib every_op_config 60 ''a'' warm_b)))
   \<and> (\<exists>m m'. fmlookup (metadata_store warm_b) ''a'' = Some m
           \<and> fmlookup (metadata_store
                 (snd (projr (get_binary tag_lib every_op_config 60 ''a'' warm_b)))) ''a'' = Some m'
           \<and> access_count m' = access_count m + 1
           \<and> last_access m' = 60
           \<and> total_accesses (snd (projr (get_binary tag_lib every_op_config 60 ''a'' warm_b)))
               = total_accesses warm_b + 1)"
proof -
  have h: "get_binary tag_lib every_op_config 60 ''a'' warm_b
     = Inr (Some [1], snd (projr (get_binary tag_lib every_op_config 60 ''a'' warm_b)))"
    by code_simp
  show ?thesis
    using get_binary_hit_bookkeeping [OF h] h by blast
qed

section \<open>What remove reports (C3)\<close>

text \<open>
  In every state \<open>remove\<close> reports whether the data map held the key, leaves the key in
  none of the three maps, and reports false when it is repeated.
\<close>

lemma remove_found: "fst (remove lib cfg now k s) = (fmlookup (data_store s) k \<noteq> None)"
  by (simp add: remove_def Let_def)

lemma reorganize_entry_absent:
  "fmlookup (metadata_store s) k = None \<Longrightarrow>
   fmlookup (metadata_store (reorganize_entry lib cfg j s)) k = None
   \<and> fmlookup (data_store (reorganize_entry lib cfg j s)) k = fmlookup (data_store s) k"
  by (cases "j = k") (simp_all add: reorganize_entry_other, simp add: reorganize_entry_def)

lemma fold_reorganize_absent:
  "fmlookup (metadata_store s) k = None \<Longrightarrow>
   fmlookup (metadata_store (fold (reorganize_entry lib cfg) ks s)) k = None
   \<and> fmlookup (data_store (fold (reorganize_entry lib cfg) ks s)) k = fmlookup (data_store s) k"
proof (induction ks arbitrary: s)
  case Nil
  then show ?case by simp
next
  case (Cons j ks)
  show ?case
    using reorganize_entry_absent [OF Cons.prems, of lib cfg j]
          Cons.IH [of "reorganize_entry lib cfg j s"] by simp
qed

lemma after_operation_absent:
  assumes "fmlookup (metadata_store s) k = None"
  shows "fmlookup (metadata_store (after_operation lib cfg now s)) k = None
         \<and> fmlookup (data_store (after_operation lib cfg now s)) k = fmlookup (data_store s) k"
  using assms
        fold_reorganize_absent [of "s\<lparr>operations_since_reorg := operations_since_reorg s + 1\<rparr>"
                                   k lib cfg]
  by (simp add: after_operation_def check_reorganization_trigger_def reorganize_def Let_def)

lemma remove_erases:
  "fmlookup (data_store (snd (remove lib cfg now k s))) k = None
   \<and> fmlookup (metadata_store (snd (remove lib cfg now k s))) k = None
   \<and> fmlookup (write_buffer (snd (remove lib cfg now k s))) k = None"
  using after_operation_absent [of "erase_key k s" k lib cfg now]
  by (simp add: remove_def Let_def erase_key_def)

lemma remove_twice:
  "fst (remove lib cfg now' k (snd (remove lib cfg now k s))) = False"
  using remove_erases [of lib cfg now k s] by (simp add: remove_found)

text \<open>
  C3 says that \<open>remove(k)\<close> erases \<open>k\<close> from the data map, the metadata map and the
  write buffer and returns true exactly when a mapping for \<open>k\<close> existed, also when the
  key was inserted under lazy persistence and is still in the write buffer only. The
  source computes the result from \<open>data_store_.erase(key)\<close> alone. Here the key
  \<open>''k''\<close> is inserted under lazy persistence: it is in the write buffer and not in the
  data map, \<open>remove\<close> erases it from the buffer and returns false.
\<close>

theorem remove_buffered_key_reports_not_found:
  "fmlookup (write_buffer (insert_binary tag_lib lazy_config 7 ''k'' [1] empty_db)) ''k''
     = Some [19, 1]
   \<and> fmlookup (data_store (insert_binary tag_lib lazy_config 7 ''k'' [1] empty_db)) ''k'' = None
   \<and> fst (remove tag_lib lazy_config 8 ''k''
             (insert_binary tag_lib lazy_config 7 ''k'' [1] empty_db)) = False
   \<and> fmlookup (write_buffer (snd (remove tag_lib lazy_config 8 ''k''
             (insert_binary tag_lib lazy_config 7 ''k'' [1] empty_db)))) ''k'' = None"
  by code_simp

section \<open>Reading a key that has no metadata (C8)\<close>

text \<open>
  In every state, a read of a key that has a blob and no metadata record reaches the
  unguarded \<open>meta_it->second\<close>.
\<close>

lemma get_binary_no_metadata:
  "stored_blob s k = Some c \<Longrightarrow> fmlookup (metadata_store s) k = None \<Longrightarrow>
   get_binary lib cfg now k s = Inl EndIteratorDereference"
  by (auto simp: get_binary_def stored_blob_def flush_data_store Let_def split: option.splits)

text \<open>
  C8 says that after opening a directory with data.db and without metadata.db the
  metadata map is empty and every key of the image is still readable, \<open>get_binary\<close>
  being well defined and returning a value. The directory here holds the image of the
  one pair \<open>''a''\<close>, \<open>[65]\<close>: the store opens with that pair and an empty metadata map,
  and \<open>get_binary\<close> on \<open>''a''\<close> takes \<open>meta_it->second\<close> of the end iterator.
\<close>

theorem get_binary_without_metadata_undefined:
  "(case open_database one_record_dir {||} 100 of
      Inl e \<Rightarrow> False
    | Inr s \<Rightarrow> fmlookup (data_store s) ''a'' = Some [65]
        \<and> metadata_store s = fmempty
        \<and> get_binary tag_lib default_config 101 ''a'' s = Inl EndIteratorDereference)"
  by code_simp

section \<open>A read that misses (C10)\<close>

text \<open>
  In every state and under every configuration, a read of a key that is in neither map
  returns absent and the state it was given.
\<close>

lemma get_binary_miss:
  "fmlookup (write_buffer s) k = None \<Longrightarrow> fmlookup (data_store s) k = None \<Longrightarrow>
   get_binary lib cfg now k s = Inr (None, s)"
  by (simp add: get_binary_def)

text \<open>
  C10 says that under the manual strategy \<open>get_binary(k)\<close> for a key that is neither
  in the data map nor in the write buffer returns absent and changes nothing but the
  counter \<open>ops_since_reorg\<close>, which it increments by one. The source returns
  \<open>std::nullopt\<close> before it reaches \<open>after_operation()\<close>: the state after the miss is
  the state before it, counter included.
\<close>

theorem get_binary_miss_skips_after_operation:
  "get_binary tag_lib manual_config 8 ''k'' empty_db = Inr (None, empty_db)
   \<and> operations_since_reorg empty_db = 0"
  by code_simp

section \<open>Eviction (C6)\<close>

lemma in_sorted_list_of_fmap:
  "((k, v) \<in> set (sorted_list_of_fmap m)) = (fmlookup m k = Some v)"
  using map_of_eq_Some_iff [OF distinct_keys_sorted_list_of_fmap, of m k v] by simp

lemma fold_erase_key_lookup:
  "fmlookup (metadata_store (fold erase_key ks s)) j
     = (if j \<in> set ks then None else fmlookup (metadata_store s) j)
   \<and> fmlookup (data_store (fold erase_key ks s)) j
     = (if j \<in> set ks then None else fmlookup (data_store s) j)
   \<and> fmlookup (write_buffer (fold erase_key ks s)) j
     = (if j \<in> set ks then None else fmlookup (write_buffer s) j)"
  by (induction ks arbitrary: s) (auto simp: erase_key_def)

lemma delete_coldest_data_lookup:
  "fmlookup (metadata_store (delete_coldest_data s)) j
     = (if j \<in> set (coldest_keys s) then None else fmlookup (metadata_store s) j)
   \<and> fmlookup (data_store (delete_coldest_data s)) j
     = (if j \<in> set (coldest_keys s) then None else fmlookup (data_store s) j)
   \<and> fmlookup (write_buffer (delete_coldest_data s)) j
     = (if j \<in> set (coldest_keys s) then None else fmlookup (write_buffer s) j)"
  using fold_erase_key_lookup [of "coldest_keys s" s j] by (simp add: delete_coldest_data_def)

lemma coldest_keys_shape:
  assumes nonempty: "metadata_store s \<noteq> fmempty"
  shows "distinct (coldest_keys s)
         \<and> length (coldest_keys s) = max 1 (size (fmdom (metadata_store s)) div 10)
         \<and> set (coldest_keys s) \<subseteq> fset (fmdom (metadata_store s))"
proof -
  define items where "items = map (\<lambda>(key, metadata). (key, access_count metadata))
                                 (sorted_list_of_fmap (metadata_store s))"
  define d where "d = max (length items div 10) 1"
  define srt where "srt = sort_key snd items"
  have ck: "coldest_keys s = map fst (take d srt)"
    by (simp add: coldest_keys_def Let_def items_def d_def srt_def)
  have keys: "map fst items = map fst (sorted_list_of_fmap (metadata_store s))"
    by (simp add: items_def comp_def case_prod_unfold)
  have len: "length items = size (fmdom (metadata_store s))"
    by (simp add: items_def length_sorted_list_of_fmap)
  have "fmdom (metadata_store s) \<noteq> {||}"
    using nonempty by (simp add: fmdom_empty_iff)
  then have pos: "0 < length items"
    using len by (cases "fmdom (metadata_store s) = {||}") (auto simp: fcard_fempty)
  have "distinct (map fst items)"
    using keys distinct_keys_sorted_list_of_fmap by simp
  then have "distinct items" and "inj_on fst (set items)"
    by (simp_all add: distinct_map)
  then have dist: "distinct (map fst srt)"
    by (simp add: distinct_map srt_def)
  have "distinct (map fst (take d srt))"
    using dist by (simp add: take_map [symmetric] distinct_take)
  moreover have "length (take d srt) = max 1 (length items div 10)"
  proof -
    have "length items div 10 \<le> length items" by simp
    then have "d \<le> length srt"
      using pos by (simp add: d_def srt_def Suc_leI)
    then show ?thesis by (simp add: d_def max.commute)
  qed
  moreover have "set (map fst (take d srt)) \<subseteq> set (map fst srt)"
    by (metis set_take_subset take_map)
  moreover have "set (map fst srt) = fset (fmdom (metadata_store s))"
  proof -
    have "set (map fst srt) = set (map fst items)"
      by (simp add: srt_def)
    also have "\<dots> = set (map fst (sorted_list_of_fmap (metadata_store s)))"
      by (simp only: keys)
    finally show ?thesis
      by (simp only: set_keys_sorted_list_of_fmap)
  qed
  ultimately show ?thesis
    using ck len by simp
qed

lemma coldest_keys_order:
  assumes k: "k \<in> set (coldest_keys s)" and mk: "fmlookup (metadata_store s) k = Some mk"
      and j: "j \<notin> set (coldest_keys s)" and mj: "fmlookup (metadata_store s) j = Some mj"
  shows "access_count mk \<le> access_count mj"
proof -
  define items where "items = map (\<lambda>(key, metadata). (key, access_count metadata))
                                 (sorted_list_of_fmap (metadata_store s))"
  define d where "d = max (length items div 10) 1"
  define srt where "srt = sort_key snd items"
  have ck: "coldest_keys s = map fst (take d srt)"
    by (simp add: coldest_keys_def Let_def items_def d_def srt_def)
  have item: "(x, a) \<in> set items \<Longrightarrow> fmlookup (metadata_store s) x = Some m
                \<Longrightarrow> a = access_count m" for x a m
    by (auto simp: items_def in_sorted_list_of_fmap)
  have item_j: "(j, access_count mj) \<in> set items"
    using mj by (force simp: items_def in_sorted_list_of_fmap)
  have set_srt: "set srt = set items"
    by (simp add: srt_def)
  from k ck obtain a where ka: "(k, a) \<in> set (take d srt)"
    by auto
  then have "(k, a) \<in> set items"
    using set_srt in_set_takeD [of "(k, a)" d srt] by simp
  then have a: "a = access_count mk"
    using item mk by simp
  have "(j, access_count mj) \<notin> set (take d srt)"
    using j ck by force
  moreover have "set srt = set (take d srt) \<union> set (drop d srt)"
    by (metis append_take_drop_id set_append)
  ultimately have jd: "(j, access_count mj) \<in> set (drop d srt)"
    using item_j set_srt by blast
  have "sorted (map snd (take d srt @ drop d srt))"
    by (simp add: srt_def)
  then have "\<forall>x\<in>set (map snd (take d srt)). \<forall>y\<in>set (map snd (drop d srt)). x \<le> y"
    by (simp only: map_append sorted_append) blast
  then show ?thesis
    using ka jd a by force
qed

text \<open>
  C6 says that eviction removes exactly \<open>max(1, floor(|keys| / 10))\<close> entries, those
  with the lowest access counts, ties broken by ascending \<open>last_access\<close> and then by
  key, so that the evicted set is deterministic. The comparator handed to \<open>std::sort\<close>
  sees the access counts only. Of two keys that were never read, \<open>''a''\<close> written at
  second 10 and \<open>''b''\<close> at second 5, the order of the specification evicts \<open>''b''\<close>;
  the source evicts \<open>''a''\<close> and keeps \<open>''b''\<close>.
\<close>

theorem eviction_ignores_last_access:
  "coldest_keys two_cold_keys = [''a''] \<and> spec_coldest_keys two_cold_keys = [''b'']
   \<and> fmdom (metadata_store (delete_coldest_data two_cold_keys)) = {|''b''|}"
  by code_simp

text \<open>
  C6, amended: on a store with \<open>n \<ge> 1\<close> metadata records (as it is whenever
  \<open>check_size_limit\<close> calls it from an insert), \<open>delete_coldest_data\<close> removes exactly
  \<open>max(1, floor(n / 10))\<close> of the keys that have metadata; every removed key has an access
  count at most that of every key that stays; the removed keys are gone from the data
  map and the write buffer as well, and the entries of the keys that stay are as before.
  Among keys with equal access counts the choice follows \<open>std::sort\<close>; \<open>last_access\<close>
  takes no part in it.
\<close>

theorem delete_coldest_data_evicts_coldest:
  assumes nonempty: "metadata_store s \<noteq> fmempty"
  shows "size (fmdom (metadata_store s) |-| fmdom (metadata_store (delete_coldest_data s)))
           = max 1 (size (fmdom (metadata_store s)) div 10)
         \<and> fmdom (metadata_store (delete_coldest_data s)) |\<subseteq>| fmdom (metadata_store s)
         \<and> (\<forall>k j mk mj.
               fmlookup (metadata_store s) k = Some mk
               \<and> fmlookup (metadata_store (delete_coldest_data s)) k = None
               \<and> fmlookup (metadata_store (delete_coldest_data s)) j = Some mj
               \<longrightarrow> access_count mk \<le> access_count mj)
         \<and> (\<forall>k mk.
               fmlookup (metadata_store s) k = Some mk
               \<and> fmlookup (metadata_store (delete_coldest_data s)) k = None
               \<longrightarrow> fmlookup (data_store (delete_coldest_data s)) k = None
                   \<and> fmlookup (write_buffer (delete_coldest_data s)) k = None)
         \<and> (\<forall>j mj.
               fmlookup (metadata_store (delete_coldest_data s)) j = Some mj
               \<longrightarrow> fmlookup (metadata_store s) j = Some mj
                   \<and> fmlookup (data_store (delete_coldest_data s)) j = fmlookup (data_store s) j
                   \<and> fmlookup (write_buffer (delete_coldest_data s)) j
                       = fmlookup (write_buffer s) j)"
proof -
  let ?t = "delete_coldest_data s"
  let ?ks = "coldest_keys s"
  note shape = coldest_keys_shape [OF nonempty]
  have gone: "fmdom (metadata_store s) |-| fmdom (metadata_store ?t) = fset_of_list ?ks"
  proof (rule fset_eqI)
    fix x
    show "(x |\<in>| fmdom (metadata_store s) |-| fmdom (metadata_store ?t))
            = (x |\<in>| fset_of_list ?ks)"
      using delete_coldest_data_lookup [of s x] shape
      by (auto simp: fmlookup_dom_iff fset_of_list_elem)
  qed
  have "size (fset_of_list ?ks) = length ?ks"
    using shape by (simp add: fcard.rep_eq fset_of_list.rep_eq distinct_card)
  then have count: "size (fmdom (metadata_store s) |-| fmdom (metadata_store ?t))
                      = max 1 (size (fmdom (metadata_store s)) div 10)"
    using gone shape by simp
  have sub: "fmdom (metadata_store ?t) |\<subseteq>| fmdom (metadata_store s)"
  proof
    fix x assume "x |\<in>| fmdom (metadata_store ?t)"
    then show "x |\<in>| fmdom (metadata_store s)"
      using delete_coldest_data_lookup [of s x]
      by (auto simp: fmlookup_dom_iff split: if_splits)
  qed
  have removed: "k \<in> set ?ks"
    if "fmlookup (metadata_store s) k = Some mk" and "fmlookup (metadata_store ?t) k = None"
    for k mk
    using delete_coldest_data_lookup [of s k] that by (auto split: if_splits)
  have kept: "j \<notin> set ?ks \<and> fmlookup (metadata_store s) j = Some mj"
    if "fmlookup (metadata_store ?t) j = Some mj" for j mj
    using delete_coldest_data_lookup [of s j] that by (auto split: if_splits)
  have order: "access_count mk \<le> access_count mj"
    if "fmlookup (metadata_store s) k = Some mk" and "fmlookup (metadata_store ?t) k = None"
      and "fmlookup (metadata_store ?t) j = Some mj" for k j mk mj
    using coldest_keys_order [of k s mk j mj] removed [OF that(1,2)] kept [OF that(3)] that(1)
    by simp
  have erased: "fmlookup (data_store ?t) k = None \<and> fmlookup (write_buffer ?t) k = None"
    if "fmlookup (metadata_store s) k = Some mk" and "fmlookup (metadata_store ?t) k = None"
    for k mk
    using removed [OF that] delete_coldest_data_lookup [of s k] by simp
  have same: "fmlookup (metadata_store s) j = Some mj
                \<and> fmlookup (data_store ?t) j = fmlookup (data_store s) j
                \<and> fmlookup (write_buffer ?t) j = fmlookup (write_buffer s) j"
    if "fmlookup (metadata_store ?t) j = Some mj" for j mj
    using kept [OF that] delete_coldest_data_lookup [of s j] by simp
  show ?thesis
    using count sub order erased same by blast
qed

theorem delete_coldest_data_evicts_coldest_witness:
  "metadata_store warm_b \<noteq> fmempty
   \<and> size (fmdom (metadata_store warm_b) |-| fmdom (metadata_store (delete_coldest_data warm_b)))
       = max 1 (size (fmdom (metadata_store warm_b)) div 10)
   \<and> fmdom (metadata_store (delete_coldest_data warm_b)) |\<subseteq>| fmdom (metadata_store warm_b)"
proof -
  have h: "metadata_store warm_b \<noteq> fmempty"
    by code_simp
  show ?thesis
    using delete_coldest_data_evicts_coldest [OF h] h by blast
qed

section \<open>Chunk paths and the two chunk loops\<close>

lemma to_string_length_le: "length (to_string n) \<le> n + 1"
proof (induction n rule: to_string.induct)
  case (1 n)
  show ?case
  proof (cases "n < 10")
    case True
    then show ?thesis by (subst to_string.simps) simp
  next
    case False
    then have "length (to_string (n div 10)) \<le> n div 10 + 1"
      using "1.IH" by simp
    then show ?thesis
      using False by (subst to_string.simps) simp
  qed
qed

lemma digits_value_snoc: "digits_value (ds @ [d]) = 10 * digits_value ds + (of_char d - 48)"
  by (simp add: digits_value_def)

lemma digits_value_to_string: "digits_value (to_string n) = n"
proof (induction n rule: to_string.induct)
  case (1 n)
  show ?case
  proof (cases "n < 10")
    case True
    then show ?thesis
      by (subst to_string.simps) (simp add: digits_value_def)
  next
    case False
    then have "digits_value (to_string (n div 10)) = n div 10"
      using "1.IH" by simp
    moreover have "of_char (char_of (48 + n mod 10)) = 48 + n mod 10"
      by simp
    ultimately show ?thesis
      using False by (subst to_string.simps) (simp add: digits_value_snoc)
  qed
qed

lemma digits_value_zeros: "digits_value (replicate z (CHR ''0'') @ ds) = digits_value ds"
proof -
  have "foldl (\<lambda>acc d. 10 * acc + (of_char d - 48)) (0 :: nat) (replicate z (CHR ''0'')) = 0"
    by (induction z) simp_all
  then show ?thesis
    by (simp add: digits_value_def)
qed

lemma get_chunk_path_Inr:
  assumes "get_chunk_path e k cid = Inr p"
  shows "length (to_string (unat cid)) \<le> 3
         \<and> p = chunks_dir e @ ''/'' @ k @ ''/chunk_''
                @ replicate (3 - length (to_string (unat cid))) (CHR ''0'')
                @ to_string (unat cid) @ ''.bin''"
proof -
  let ?len = "length (to_string (unat cid))"
  have "unat cid < 2 ^ 32"
    using unsigned_less [of cid] by simp
  then have bound: "?len \<le> 2 ^ 32"
    using to_string_length_le [of "unat cid"] by simp
  have short: "?len \<le> 3"
  proof (rule ccontr)
    assume "\<not> ?len \<le> 3"
    then have "(2 ^ 64 + 3 - ?len) mod 2 ^ 64 = 2 ^ 64 + 3 - ?len"
      using bound by simp
    moreover have "2 ^ 64 + 3 - ?len > string_max_size"
      using bound by (simp add: string_max_size_def)
    ultimately show False
      using assms by (simp add: get_chunk_path_def Let_def)
  qed
  then have "(2 ^ 64 + 3 - ?len) mod 2 ^ 64 = 3 - ?len"
    by (simp add: mod_if)
  then show ?thesis
    using assms short by (simp add: get_chunk_path_def Let_def split: if_splits)
qed

lemma get_chunk_path_inj:
  assumes a: "get_chunk_path e k a = Inr p" and b: "get_chunk_path e k b = Inr p"
  shows "a = b"
proof -
  let ?pa = "replicate (3 - length (to_string (unat a))) (CHR ''0'') @ to_string (unat a)"
  let ?pb = "replicate (3 - length (to_string (unat b))) (CHR ''0'') @ to_string (unat b)"
  have "(chunks_dir e @ ''/'' @ k @ ''/chunk_'') @ ?pa @ ''.bin''
          = (chunks_dir e @ ''/'' @ k @ ''/chunk_'') @ ?pb @ ''.bin''"
    using get_chunk_path_Inr [OF a] get_chunk_path_Inr [OF b] by simp
  then have "?pa @ ''.bin'' = ?pb @ ''.bin''"
    by (simp only: same_append_eq)
  then have "?pa = ?pb"
    by (simp only: append_same_eq append_assoc [symmetric])
  then have "digits_value ?pa = digits_value ?pb"
    by simp
  then have "unat a = unat b"
    by (simp only: digits_value_zeros digits_value_to_string)
  then show ?thesis by (simp add: word_unat_eq_iff)
qed


lemma unat_of_nat_u32: "i < 2 ^ 32 \<Longrightarrow> unat (of_nat i :: u32) = i"
  by (simp add: unat_of_nat)

lemma of_nat_u32_inj:
  "i < 2 ^ 32 \<Longrightarrow> j < 2 ^ 32 \<Longrightarrow> (of_nat i :: u32) = of_nat j \<Longrightarrow> i = j"
proof -
  assume i: "i < 2 ^ 32" and j: "j < 2 ^ 32" and eq: "(of_nat i :: u32) = of_nat j"
  have "i = unat (of_nat i :: u32)"
    using unat_of_nat_u32 [OF i] by (rule sym)
  also have "\<dots> = unat (of_nat j :: u32)"
    by (simp only: eq)
  also have "\<dots> = j"
    by (rule unat_of_nat_u32 [OF j])
  finally show "i = j" .
qed

lemma write_chunks_keeps:
  assumes "write_chunks e k data cfn ids (dsk0, cs0) = Inr (dsk, cs)"
  shows "(\<forall>i\<in>set ids. get_chunk_path e k (of_nat i) \<noteq> Inr p) \<longrightarrow>
           fmlookup dsk p = fmlookup dsk0 p"
    and "(\<forall>i\<in>set ids. (of_nat i :: u32) \<noteq> x) \<longrightarrow> fmlookup cs x = fmlookup cs0 x"
  using assms
proof (induction ids arbitrary: dsk0 cs0)
  case Nil
  { case 1 then show ?case by simp }
  { case 2 then show ?case by simp }
next
  case (Cons i ids)
  { case 1
    then show ?case
      using Cons.IH(1) by (auto simp: Let_def split: sum.splits if_splits) }
  { case 2
    then show ?case
      using Cons.IH(2) by (auto simp: Let_def split: sum.splits if_splits) }
qed


lemma chunk_bytes_take: "chunk_bytes c data i = take c (drop (i * c) data)"
  by (simp add: chunk_bytes_def min_def)

lemma length_chunk_bytes: "length (chunk_bytes c data i) = min c (length data - i * c)"
  by (simp add: chunk_bytes_def)

lemma concat_chunk_bytes:
  "concat (map (chunk_bytes c data) [a..<a + n]) = take (n * c) (drop (a * c) data)"
proof (induction n)
  case 0
  show ?case by simp
next
  case (Suc n)
  have "(a + n) * c = n * c + a * c"
    by (simp add: add_mult_distrib)
  then have "take (n * c) (drop (a * c) data) @ take c (drop ((a + n) * c) data)
          = take (n * c + c) (drop (a * c) data)"
    by (simp only: take_add drop_drop)
  moreover have "Suc n * c = n * c + c"
    by simp
  ultimately show ?case
    using Suc by (simp add: chunk_bytes_take del: mult_Suc)
qed

lemma write_chunks_result:
  assumes run: "write_chunks e k data cfn ids (dsk0, cs0) = Inr (dsk, cs)"
      and i: "i \<in> set ids"
      and dist: "distinct ids"
      and small: "\<forall>j\<in>set ids. j < 2 ^ 32"
      and writable: "\<forall>cid p. get_chunk_path e k cid = Inr p \<longrightarrow> p |\<notin>| disk_read_only e"
  shows "\<exists>p m. get_chunk_path e k (of_nat i) = Inr p
           \<and> fmlookup dsk p = Some (cfn (chunk_bytes (unat (default_chunk_size e)) data i) 4)
           \<and> fmlookup cs (of_nat i) = Some m
           \<and> chunk_tier m = 4
           \<and> chunk_compressed_size m
               = length (cfn (chunk_bytes (unat (default_chunk_size e)) data i) 4)
           \<and> chunk_original_size m
               = length (chunk_bytes (unat (default_chunk_size e)) data i)"
  using run i dist small
proof (induction ids arbitrary: dsk0 cs0)
  case Nil
  then show ?case by simp
next
  case (Cons j ids)
  let ?c = "unat (default_chunk_size e)"
  let ?comp = "cfn (chunk_bytes ?c data j) 4"
  let ?m = "\<lparr>chunk_id = of_nat j, heat = 1 / 10, chunk_compressed_size = length ?comp,
             chunk_original_size = min ?c (length data - j * ?c), file_offset = 0,
             chunk_tier = 4, chunk_last_access = 0\<rparr>"
  from Cons.prems(1) obtain p where p: "get_chunk_path e k (of_nat j) = Inr p"
    and rest: "write_chunks e k data cfn ids (fmupd p ?comp dsk0, fmupd (of_nat j) ?m cs0)
                 = Inr (dsk, cs)"
    using writable by (auto simp: Let_def chunk_bytes_def split: sum.splits if_splits)
  show ?case
  proof (cases "i = j")
    case True
    have "\<forall>x\<in>set ids. get_chunk_path e k (of_nat x) \<noteq> Inr p"
    proof
      fix x assume x: "x \<in> set ids"
      show "get_chunk_path e k (of_nat x) \<noteq> Inr p"
      proof
        assume "get_chunk_path e k (of_nat x) = Inr p"
        then have "(of_nat x :: u32) = of_nat j"
          using get_chunk_path_inj p by blast
        then have "x = j"
          using of_nat_u32_inj [of x j] x Cons.prems(4) by simp
        then show False using x Cons.prems(3) by simp
      qed
    qed
    then have disk: "fmlookup dsk p = Some ?comp"
      using write_chunks_keeps(1) [OF rest, of p] by simp
    have "\<forall>x\<in>set ids. (of_nat x :: u32) \<noteq> of_nat j"
    proof
      fix x assume x: "x \<in> set ids"
      show "(of_nat x :: u32) \<noteq> of_nat j"
        using of_nat_u32_inj [of x j] x Cons.prems(3,4) by auto
    qed
    then have "fmlookup cs (of_nat j) = Some ?m"
      using write_chunks_keeps(2) [OF rest, of "of_nat j"] by simp
    then show ?thesis
      using True p disk by (simp add: length_chunk_bytes)
  next
    case False
    then show ?thesis
      using Cons.IH [OF rest] Cons.prems(2,3,4) by simp
  qed
qed

lemma read_chunks_result:
  assumes stored: "\<forall>i\<in>set ids. \<exists>p m. get_chunk_path e k (of_nat i) = Inr p
           \<and> fmlookup (disk e) p = Some (cfn (chunk_bytes c data i) (4 :: byte))
           \<and> fmlookup cs (of_nat i) = Some m
           \<and> chunk_tier m = 4
           \<and> chunk_compressed_size m = length (cfn (chunk_bytes c data i) 4)
           \<and> chunk_original_size m = length (chunk_bytes c data i)"
      and small: "\<forall>i\<in>set ids. i < 2 ^ 32"
      and inverse: "\<forall>x. dfn (cfn x 4) 4 (length x) = x"
  shows "\<exists>cs'. read_chunks e k dfn now ids (res, cs)
           = Inr (res @ concat (map (chunk_bytes c data) ids), cs')"
  using stored small
proof (induction ids arbitrary: res cs)
  case Nil
  then show ?case by simp
next
  case (Cons i ids)
  from Cons.prems(1) obtain p m where p: "get_chunk_path e k (of_nat i) = Inr p"
    and content: "fmlookup (disk e) p = Some (cfn (chunk_bytes c data i) 4)"
    and m: "fmlookup cs (of_nat i) = Some m" "chunk_tier m = 4"
           "chunk_compressed_size m = length (cfn (chunk_bytes c data i) 4)"
           "chunk_original_size m = length (chunk_bytes c data i)"
    by auto
  let ?m' = "m\<lparr>heat := min 1 (heat m + 1 / 10), chunk_last_access := now\<rparr>"
  let ?cs' = "fmupd (of_nat i) ?m' cs"
  have step: "read_chunks e k dfn now (i # ids) (res, cs)
                = read_chunks e k dfn now ids (res @ chunk_bytes c data i, ?cs')"
    using p content m inverse by (simp add: Let_def read_over_def)
  have "\<forall>j\<in>set ids. \<exists>p m. get_chunk_path e k (of_nat j) = Inr p
           \<and> fmlookup (disk e) p = Some (cfn (chunk_bytes c data j) 4)
           \<and> fmlookup ?cs' (of_nat j) = Some m
           \<and> chunk_tier m = 4
           \<and> chunk_compressed_size m = length (cfn (chunk_bytes c data j) 4)
           \<and> chunk_original_size m = length (chunk_bytes c data j)"
  proof
    fix j assume j: "j \<in> set ids"
    show "\<exists>p m. get_chunk_path e k (of_nat j) = Inr p
           \<and> fmlookup (disk e) p = Some (cfn (chunk_bytes c data j) 4)
           \<and> fmlookup ?cs' (of_nat j) = Some m
           \<and> chunk_tier m = 4
           \<and> chunk_compressed_size m = length (cfn (chunk_bytes c data j) 4)
           \<and> chunk_original_size m = length (chunk_bytes c data j)"
    proof (cases "(of_nat j :: u32) = of_nat i")
      case True
      then have "j = i"
        using of_nat_u32_inj [of j i] j Cons.prems(2) by simp
      then show ?thesis using p content m by simp
    next
      case False
      then show ?thesis using Cons.prems(1) j by auto
    qed
  qed
  then obtain cs'' where "read_chunks e k dfn now ids (res @ chunk_bytes c data i, ?cs')
      = Inr ((res @ chunk_bytes c data i) @ concat (map (chunk_bytes c data) ids), cs'')"
    using Cons.IH [of ?cs' "res @ chunk_bytes c data i"] Cons.prems(2) by auto
  then show ?case using step by simp
qed

lemma get_chunk_path_cong:
  "chunks_dir e' = chunks_dir e \<Longrightarrow> get_chunk_path e' k cid = get_chunk_path e k cid"
  by (simp add: get_chunk_path_def Let_def)

lemma read_chunks_cong:
  "chunks_dir e' = chunks_dir e \<Longrightarrow> disk e' = disk e \<Longrightarrow>
   read_chunks e' k dfn now ids acc = read_chunks e k dfn now ids acc"
proof (induction ids arbitrary: acc)
  case Nil
  show ?case by simp
next
  case (Cons i ids)
  obtain res cs where acc: "acc = (res, cs)" by (cases acc)
  show ?case
    using Cons get_chunk_path_cong [of e' e k "of_nat i"] unfolding acc
    by (simp add: Let_def split: option.splits sum.splits)
qed

lemma insert_chunked_Inr:
  assumes "insert_chunked e k data cfn = Inr e'"
  shows "\<exists>dsk cs.
           write_chunks e k data cfn
             [0..<unat (of_nat (((length data + unat (default_chunk_size e) - 1) mod 2 ^ 64)
                                 div unat (default_chunk_size e)) :: u32)]
             (disk e, fmempty) = Inr (dsk, cs)
           \<and> e' = e\<lparr>file_metadata :=
                       fmupd k \<lparr>key = k, total_size = length data,
                                chunk_size = unat (default_chunk_size e),
                                num_chunks = of_nat (((length data + unat (default_chunk_size e) - 1)
                                                        mod 2 ^ 64)
                                                      div unat (default_chunk_size e)),
                                chunks = cs\<rparr> (file_metadata e),
                     disk := dsk\<rparr>"
  using assms by (auto simp: insert_chunked_def Let_def split: if_splits sum.splits)

lemma slice_of_chunks:
  assumes "a \<le> b"
  shows "concat (map (chunk_bytes c data) [a..<Suc b])
           = drop (a * c) (take (min ((b + 1) * c) (length data)) data)"
proof -
  have "[a..<Suc b] = [a..<a + (Suc b - a)]"
    using assms by simp
  then have "concat (map (chunk_bytes c data) [a..<Suc b])
               = take ((Suc b - a) * c) (drop (a * c) data)"
    using concat_chunk_bytes [of c data a "Suc b - a"] by simp
  also have "\<dots> = take ((b + 1) * c - a * c) (drop (a * c) data)"
    by (simp add: diff_mult_distrib)
  also have "\<dots> = drop (a * c) (take ((b + 1) * c) data)"
    by (simp add: drop_take)
  also have "take ((b + 1) * c) data = take (min ((b + 1) * c) (length data)) data"
    by (simp add: min_def)
  finally show ?thesis .
qed

text \<open>
  The path of every id below 1000 is padded to three digits; from id 1000 on
  \<open>get_chunk_path\<close> throws. An insert of at most 1000 chunks returns.
\<close>

lemma to_string_length_unfold:
  "length (to_string n) = (if n < 10 then 1 else Suc (length (to_string (n div 10))))"
  by (subst to_string.simps) simp

lemma to_string_short: "n < 1000 \<Longrightarrow> length (to_string n) \<le> 3"
  by (simp add: to_string_length_unfold [of n] to_string_length_unfold [of "n div 10"]
                to_string_length_unfold [of "n div 10 div 10"])

lemma to_string_long: "1000 \<le> n \<Longrightarrow> 4 \<le> length (to_string n)"
proof -
  assume n: "1000 \<le> n"
  then have "\<not> n < 10" "\<not> n div 10 < 10" "\<not> n div 10 div 10 < 10"
    by simp_all
  moreover have "1 \<le> length (to_string (n div 10 div 10 div 10))"
    by (simp add: to_string_length_unfold [of "n div 10 div 10 div 10"])
  ultimately show ?thesis
    by (simp add: to_string_length_unfold [of n] to_string_length_unfold [of "n div 10"]
                  to_string_length_unfold [of "n div 10 div 10"])
qed

lemma get_chunk_path_padded:
  assumes "unat cid < 1000"
  shows "get_chunk_path e k cid
           = Inr (chunks_dir e @ ''/'' @ k @ ''/chunk_''
                  @ replicate (3 - length (to_string (unat cid))) (CHR ''0'')
                  @ to_string (unat cid) @ ''.bin'')"
proof -
  have short: "length (to_string (unat cid)) \<le> 3"
    using assms by (rule to_string_short)
  then have "(2 ^ 64 + 3 - length (to_string (unat cid))) mod 2 ^ 64
               = 3 - length (to_string (unat cid))"
    by (simp add: mod_if)
  then show ?thesis
    by (simp add: get_chunk_path_def Let_def string_max_size_def)
qed

lemma get_chunk_path_throws:
  assumes "1000 \<le> unat cid"
  shows "get_chunk_path e k cid = Inl LengthError"
proof -
  have "\<not> length (to_string (unat cid)) \<le> 3"
    using to_string_long [OF assms] by simp
  then show ?thesis
    using get_chunk_path_Inr [of e k cid] by (cases "get_chunk_path e k cid")
      (auto simp: get_chunk_path_def Let_def split: if_splits)
qed

lemma write_chunks_returns:
  "\<forall>i\<in>set ids. i < 1000 \<Longrightarrow> \<exists>r. write_chunks e k data cfn ids acc = Inr r"
proof (induction ids arbitrary: acc)
  case Nil
  show ?case by simp
next
  case (Cons i ids)
  obtain dsk cs where acc: "acc = (dsk, cs)" by (cases acc)
  have "i < 1000" using Cons.prems by simp
  then have "unat (of_nat i :: u32) < 1000"
    by (simp add: unat_of_nat)
  then obtain p where "get_chunk_path e k (of_nat i) = Inr p"
    using get_chunk_path_padded by blast
  then show ?case
    using Cons.IH Cons.prems unfolding acc by (simp add: Let_def)
qed

lemma insert_chunked_returns:
  assumes "default_chunk_size e \<noteq> 0"
      and "(length data + unat (default_chunk_size e) - 1) div unat (default_chunk_size e) \<le> 1000"
  shows "\<exists>e'. insert_chunked e k data cfn = Inr e'"
proof -
  let ?c = "unat (default_chunk_size e)"
  let ?n = "of_nat (((length data + ?c - 1) mod 2 ^ 64) div ?c) :: u32"
  have "((length data + ?c - 1) mod 2 ^ 64) div ?c \<le> (length data + ?c - 1) div ?c"
    by (rule div_le_mono) simp
  then have "((length data + ?c - 1) mod 2 ^ 64) div ?c \<le> 1000"
    using assms(2) by simp
  then have "unat ?n \<le> 1000"
    by (simp add: unat_of_nat)
  then have "\<forall>i\<in>set [0..<unat ?n]. i < 1000"
    by auto
  from write_chunks_returns [OF this, of e k data cfn "(disk e, fmempty)"]
  show ?thesis
    using assms(1) by (auto simp: insert_chunked_def Let_def split: sum.splits)
qed

section \<open>Chunk file names (C9)\<close>

text \<open>
  C9 says that the chunk file name of id \<open>i\<close> is \<open>chunk_\<close>, the decimal digits of \<open>i\<close>
  zero-padded to three, and \<open>.bin\<close>, and that for ids beyond 999 the computation still
  succeeds with the unpadded digits. Id 999 gives \<open>chunk_999.bin\<close>; for id 1000 the
  padding count \<open>3 - 4\<close> wraps and the string constructor throws.
\<close>

theorem get_chunk_path_1000_throws:
  "get_chunk_path small_engine ''k'' 999 = Inr ''db/chunks/k/chunk_999.bin''
   \<and> get_chunk_path small_engine ''k'' 1000 = Inl LengthError"
  by code_simp

section \<open>The range check of a chunk read (C4)\<close>

text \<open>
  C4 says that for a key in the chunk index with \<open>N\<close> chunks \<open>get_chunk_range\<close>
  returns absent exactly when the range violates \<open>0 \<le> start \<le> end < N\<close>, so that
  every call with \<open>start > end\<close> returns absent. The source checks the two bounds
  against \<open>N\<close> and not their order: with three chunks, the range from 1 to 0 returns
  an empty byte sequence.
\<close>

theorem inverted_range_returns_data:
  "fmlookup (file_metadata three_chunks) ''k'' \<noteq> None
   \<and> returned (get_chunk_range three_chunks 9 ''k'' 1 0 tier_untag) = Inr (Some [])"
  by code_simp

text \<open>
  C4, amended: for a key in the chunk index with \<open>N = num_chunks\<close> chunks,
  \<open>get_chunk_range(k, start, end, decode)\<close> returns absent if and only if \<open>start \<ge> N\<close>
  or \<open>end \<ge> N\<close>; a call with \<open>end < start < N\<close> returns the empty byte sequence.
\<close>

theorem get_chunk_range_absent_iff:
  assumes fm: "fmlookup (file_metadata e) k = Some fm"
  shows "((returned (get_chunk_range e now k a b dfn) = Inr None)
            = (num_chunks fm \<le> a \<or> num_chunks fm \<le> b))
         \<and> (b < a \<and> a < num_chunks fm \<longrightarrow>
               returned (get_chunk_range e now k a b dfn) = Inr (Some []))"
proof -
  have inverted: "returned (get_chunk_range e now k a b dfn) = Inr (Some [])"
    if "b < a" and "a < num_chunks fm"
  proof -
    have "[unat a..<Suc (unat b)] = []"
      using that(1) by (simp add: word_less_nat_alt)
    moreover have "\<not> (num_chunks fm \<le> a \<or> num_chunks fm \<le> b)"
      using that by auto
    ultimately show ?thesis
      using fm by (simp add: get_chunk_range_def returned_def)
  qed
  have "(returned (get_chunk_range e now k a b dfn) = Inr None)
          = (num_chunks fm \<le> a \<or> num_chunks fm \<le> b)"
    using fm by (auto simp: get_chunk_range_def returned_def split: sum.splits)
  then show ?thesis
    using inverted by blast
qed

theorem get_chunk_range_absent_iff_witness:
  "fmlookup (file_metadata three_chunks) ''k''
     = Some (the (fmlookup (file_metadata three_chunks) ''k''))
   \<and> returned (get_chunk_range three_chunks 9 ''k'' 1 3 tier_untag) = Inr None"
proof -
  have h: "fmlookup (file_metadata three_chunks) ''k''
             = Some (the (fmlookup (file_metadata three_chunks) ''k''))"
    by code_simp
  have "num_chunks (the (fmlookup (file_metadata three_chunks) ''k'')) \<le> 3"
    by code_simp
  then show ?thesis
    using get_chunk_range_absent_iff [OF h, of 9 1 3 tier_untag] h by blast
qed

section \<open>Reading a range of chunks back (C2)\<close>



end
